theory Spec2Isabelle
  imports
    Complex_Main
    "HOL-Library.Char_ord"
    "HOL-Library.List_Lexorder"
    "HOL-Library.Product_Lexorder"
    "HOL-Library.Sublist"
    "HOL-Library.Multiset"
begin

section \<open>Sale-order report generator: a shallow embedding of \<open>sale_order.py\<close>\<close>

text \<open>
  The theory follows \<open>src/sale_order.py\<close>: the order-id sequencer
  (\<open>generate_unique_order_id\<close>), the category normaliser
  (\<open>normalize_category\<close>), the derived-field calculator (\<open>calculate_sqft\<close>,
  \<open>get_sqft_formula\<close>, \<open>get_weight_formula\<close>), the loader
  (\<open>prepare_data\<close>) and the report writer (\<open>write_report\<close>) without its styling.

  Conventions of the embedding.
  \<^item> Python \<open>float\<close> and the numeric columns of a data frame are idealised as
    rationals (\<open>rat\<close>): rounding, infinities and NaN-valued numbers are not modelled.
  \<^item> Strings are \<open>char list\<close>; case conversion and whitespace are those of ASCII.
  \<^item> A spreadsheet cell is a \<open>cell\<close>: empty (pandas NaN), text or a number.
  \<^item> An exception that leaves a function is a value \<open>Inl e\<close> of a sum type.
\<close>

subsection \<open>Strings\<close>

definition upper_char :: "char \<Rightarrow> char" where
  "upper_char c =
     (if CHR ''a'' \<le> c \<and> c \<le> CHR ''z'' then char_of (of_char c - 32 :: nat) else c)"

definition lower_char :: "char \<Rightarrow> char" where
  "lower_char c =
     (if CHR ''A'' \<le> c \<and> c \<le> CHR ''Z'' then char_of (of_char c + 32 :: nat) else c)"

text \<open>\<open>str.upper()\<close> and \<open>str.lower()\<close>.\<close>

definition upper :: "string \<Rightarrow> string" where
  "upper s = map upper_char s"

definition lower :: "string \<Rightarrow> string" where
  "lower s = map lower_char s"

text \<open>The ASCII whitespace that \<open>str.strip()\<close> removes from both ends.\<close>

definition is_space :: "char \<Rightarrow> bool" where
  "is_space c = (c \<in> set [CHR '' '', CHR 0x09, CHR 0x0A, CHR 0x0B, CHR 0x0C, CHR 0x0D])"

definition strip :: "string \<Rightarrow> string" where
  "strip s = rev (dropWhile is_space (rev (dropWhile is_space s)))"

text \<open>\<open>k in s\<close> on strings: \<open>k\<close> occurs in \<open>s\<close> as a contiguous block.\<close>

definition str_in :: "string \<Rightarrow> string \<Rightarrow> bool" where
  "str_in k s = sublist k s"

text \<open>
  Splitting at every separator character: \<open>s.split('+')\<close> with \<open>P = (\<lambda>c. c = CHR ''+'')\<close>
  and \<open>re.split(r'[xX]', s)\<close> with \<open>P\<close> the test for \<open>x\<close> or \<open>X\<close>. A separator at
  either end gives an empty part there, as in Python.
\<close>

fun split_where :: "(char \<Rightarrow> bool) \<Rightarrow> string \<Rightarrow> string list" where
  "split_where P [] = [[]]"
| "split_where P (c # cs) =
     (if P c then [] # split_where P cs
      else (case split_where P cs of
              [] \<Rightarrow> [[c]]
            | p # ps \<Rightarrow> (c # p) # ps))"

definition is_xX :: "char \<Rightarrow> bool" where
  "is_xX c = (c = CHR ''x'' \<or> c = CHR ''X'')"

subsection \<open>Numbers read from and written to text\<close>

definition is_digit :: "char \<Rightarrow> bool" where
  "is_digit c = (CHR ''0'' \<le> c \<and> c \<le> CHR ''9'')"

definition digit_val :: "char \<Rightarrow> nat" where
  "digit_val c = of_char c - 48"

definition nat_of_digits :: "string \<Rightarrow> nat" where
  "nat_of_digits ds = foldl (\<lambda>a c. 10 * a + digit_val c) 0 ds"

text \<open>
  A decimal literal without sign: digits, optionally a point and more digits, with at
  least one digit in all (\<open>12\<close>, \<open>12.\<close>, \<open>12.5\<close>, \<open>.5\<close>).
\<close>

definition unsigned_decimal :: "string \<Rightarrow> rat option" where
  "unsigned_decimal s =
     (let ip = takeWhile is_digit s in
      case dropWhile is_digit s of
        [] \<Rightarrow> if ip = [] then None else Some (of_nat (nat_of_digits ip))
      | c # fp \<Rightarrow>
          if c = CHR ''.'' \<and> list_all is_digit fp \<and> (ip \<noteq> [] \<or> fp \<noteq> [])
          then Some (of_nat (nat_of_digits ip) + of_nat (nat_of_digits fp) / 10 ^ length fp)
          else None)"

text \<open>
  \<open>float(s)\<close> on text, \<open>None\<close> for \<open>ValueError\<close>: surrounding whitespace is dropped,
  then an optional sign and a decimal literal are read. The exponent form, \<open>inf\<close>,
  \<open>nan\<close> and digit-group underscores, which Python also reads, are outside this model;
  the sizes and quantities of an order sheet are plain decimals.
\<close>

definition py_float :: "string \<Rightarrow> rat option" where
  "py_float s =
     (case strip s of
        [] \<Rightarrow> None
      | c # cs \<Rightarrow>
          if c = CHR ''-'' then map_option uminus (unsigned_decimal cs)
          else if c = CHR ''+'' then unsigned_decimal cs
          else unsigned_decimal (c # cs))"

text \<open>\<open>str(n)\<close> for a natural number, and \<open>s.zfill(w)\<close> for a string without sign.\<close>

definition digit_char :: "nat \<Rightarrow> char" where
  "digit_char d = ''0123456789'' ! d"

fun str_nat :: "nat \<Rightarrow> string" where
  "str_nat n =
     (if n < 10 then [digit_char n]
      else str_nat (n div 10) @ [digit_char (n mod 10)])"

declare str_nat.simps [simp del]

definition zfill :: "nat \<Rightarrow> string \<Rightarrow> string" where
  "zfill w s = replicate (w - length s) (CHR ''0'') @ s"

text \<open>\<open>int(x)\<close> on a number: truncation towards zero.\<close>

definition py_int :: "rat \<Rightarrow> int" where
  "py_int q = (if 0 \<le> q then \<lfloor>q\<rfloor> else \<lceil>q\<rceil>)"

subsection \<open>Cells and rows\<close>

datatype cell = Null | Str string | Num rat

text \<open>
  \<open>calculate_sqft(size, qty)\<close>. A size that is not text, has no \<open>x\<close>, does not split in
  two parts or has a part that \<open>float\<close> rejects gives 0 (the last through the
  \<open>except\<close> branch).
\<close>

definition calculate_sqft :: "cell \<Rightarrow> rat \<Rightarrow> rat" where
  "calculate_sqft sz qty =
     (case sz of
        Str s \<Rightarrow>
          if CHR ''X'' \<notin> set (upper s) then 0
          else (case split_where is_xX s of
                  [p0, p1] \<Rightarrow>
                    (case py_float p0 of
                       None \<Rightarrow> 0
                     | Some l \<Rightarrow>
                         (case py_float p1 of
                            None \<Rightarrow> 0
                          | Some b \<Rightarrow>
                              if l \<le> 15 \<and> b \<le> 15 then l * b * qty
                              else (l * b / 144) * qty))
                | _ \<Rightarrow> 0)
      | _ \<Rightarrow> 0)"

subsection \<open>Order-id sequencer\<close>

text \<open>
  The table \<open>counters(month_year TEXT PRIMARY KEY, counter INTEGER)\<close> is a map from the
  month key to the counter. Only \<open>generate_unique_order_id\<close> writes it, with 1 or the
  successor of what it read, so counters are natural numbers. \<open>datetime.now()\<close> is an
  argument; \<open>dt_month\<close> is 1 to 12.
\<close>

record datetime =
  dt_year :: nat
  dt_month :: nat

type_synonym counters = "string \<rightharpoonup> nat"

text \<open>\<open>now.strftime("%m-%y")\<close>: two-digit month, two-digit year of the century.\<close>

definition strftime_m_y :: "datetime \<Rightarrow> string" where
  "strftime_m_y now =
     zfill 2 (str_nat (dt_month now)) @ ''-'' @ zfill 2 (str_nat (dt_year now mod 100))"

text \<open>
  \<open>generate_unique_order_id()\<close>. The database is \<open>None\<close> when it cannot be reached
  (\<open>sqlite3.Error\<close>): the function then returns the text \<open>ERROR-ID\<close> and writes nothing.
  The result is the store after the call and the returned text.
\<close>

definition generate_unique_order_id :: "counters option \<Rightarrow> datetime \<Rightarrow> counters option \<times> string" where
  "generate_unique_order_id db now =
     (case db of
        None \<Rightarrow> (None, ''ERROR-ID'')
      | Some table \<Rightarrow>
          (let current_month_year = strftime_m_y now;
               new_counter = (case table current_month_year of
                                None \<Rightarrow> 1
                              | Some current_counter \<Rightarrow> current_counter + 1);
               order_number_str = zfill 5 (str_nat new_counter)
           in (Some (table(current_month_year \<mapsto> new_counter)),
               current_month_year @ ''-'' @ order_number_str)))"

text \<open>Successive calls, one per report, at the given times.\<close>

fun issue_ids :: "counters option \<Rightarrow> datetime list \<Rightarrow> counters option \<times> string list" where
  "issue_ids db [] = (db, [])"
| "issue_ids db (now # later) =
     (let (db1, oid) = generate_unique_order_id db now;
          (db2, oids) = issue_ids db1 later
      in (db2, oid # oids))"

text \<open>Reading an identifier \<open>MM-YY-N...\<close> back: its month-year prefix and its number.\<close>

definition id_prefix :: "string \<Rightarrow> string" where
  "id_prefix oid = take 5 oid"

definition id_suffix :: "string \<Rightarrow> string" where
  "id_suffix oid = drop 6 oid"

definition id_number :: "string \<Rightarrow> nat" where
  "id_number oid = nat_of_digits (id_suffix oid)"

subsection \<open>Category normaliser\<close>

text \<open>
  A row of the \<open>CategoryMap\<close> sheet: the columns \<open>MATCH KEYWORD\<close> and
  \<open>NORMALIZED CATEGORY\<close>, both text.
\<close>

record cat_rule =
  MATCH_KEYWORD :: string
  NORMALIZED_CATEGORY :: string

text \<open>\<open>str(v)\<close> on a text cell that may be empty: pandas reads an empty cell as NaN.\<close>

definition py_str :: "string option \<Rightarrow> string" where
  "py_str v = (case v of None \<Rightarrow> ''nan'' | Some s \<Rightarrow> s)"

text \<open>
  One rule against the upper-cased category: a keyword with \<open>+\<close> asks for every part
  (stripped) to occur, any other keyword for itself to occur.
\<close>

definition rule_matches :: "string \<Rightarrow> string \<Rightarrow> bool" where
  "rule_matches keyword raw_cat =
     (if CHR ''+'' \<in> set keyword
      then list_all (\<lambda>k. str_in (strip k) raw_cat) (split_where (\<lambda>c. c = CHR ''+'') keyword)
      else str_in keyword raw_cat)"

text \<open>The loop over \<open>cat_map_df.iterrows()\<close>: wildcard rows are skipped, the first match returns.\<close>

fun scan_rules :: "cat_rule list \<Rightarrow> string \<Rightarrow> string option" where
  "scan_rules [] raw_cat = None"
| "scan_rules (row # rows) raw_cat =
     (let keyword = upper (MATCH_KEYWORD row);
          target = NORMALIZED_CATEGORY row
      in if keyword = ''*'' then scan_rules rows raw_cat
         else if rule_matches keyword raw_cat then Some target
         else scan_rules rows raw_cat)"

definition normalize_category :: "string option \<Rightarrow> cat_rule list \<Rightarrow> string option \<Rightarrow> string option" where
  "normalize_category raw_category cat_map_df product =
     (case raw_category of
        None \<Rightarrow> None
      | Some raw \<Rightarrow>
          (let raw_cat = upper raw in
           if str_in ''TEX'' raw_cat then Some ''TEX CATEGORY''
           else if lower (py_str product) \<in> set [''laminate'', ''liner'']
           then (case scan_rules cat_map_df raw_cat of
                   Some target \<Rightarrow> Some target
                 | None \<Rightarrow>
                     (case filter (\<lambda>r. MATCH_KEYWORD r = ''*'') cat_map_df of
                        [] \<Rightarrow> Some raw_cat
                      | d # _ \<Rightarrow> Some (NORMALIZED_CATEGORY d)))
           else Some raw))"

subsection \<open>Category order\<close>

text \<open>\<open>drop_duplicates()\<close> and \<open>unique()\<close>: the first occurrence of each value, in order.\<close>

fun unique :: "'a list \<Rightarrow> 'a list" where
  "unique [] = []"
| "unique (x # xs) = x # unique (filter (\<lambda>y. y \<noteq> x) xs)"

definition mapped_categories_of :: "cat_rule list \<Rightarrow> string list" where
  "mapped_categories_of cat_map =
     unique (map NORMALIZED_CATEGORY (filter (\<lambda>r. MATCH_KEYWORD r \<noteq> ''*'') cat_map))"

text \<open>
  The appends to \<open>cat_order\<close> in \<open>prepare_data\<close>, in the order of the source: \<open>SF\<close>,
  \<open>HG\<close>, the mapped categories, \<open>TEX CATEGORY\<close>, \<open>UNSPECIFIED\<close>, then what is left.
\<close>

definition build_cat_order :: "string list \<Rightarrow> string list \<Rightarrow> string list" where
  "build_cat_order mapped_categories all_unique_categories =
     (let c1 = (if ''SF'' \<in> set mapped_categories \<and> ''SF'' \<in> set all_unique_categories
                then [''SF''] else []);
          c2 = c1 @ (if ''HG'' \<in> set mapped_categories \<and> ''HG'' \<in> set all_unique_categories
                     then [''HG''] else []);
          c3 = c2 @ filter (\<lambda>cat. cat \<in> set all_unique_categories
                              \<and> cat \<notin> set [''SF'', ''HG'', ''TEX CATEGORY''])
                      mapped_categories;
          c4 = c3 @ (if ''TEX CATEGORY'' \<in> set all_unique_categories
                     then [''TEX CATEGORY''] else []);
          c5 = c4 @ (if ''UNSPECIFIED'' \<in> set all_unique_categories
                     then [''UNSPECIFIED''] else [])
      in fold (\<lambda>cat acc. if cat \<notin> set acc then acc @ [cat] else acc)
           all_unique_categories c5)"

subsection \<open>Loader\<close>

text \<open>
  The input workbook. A sheet is \<open>None\<close> when \<open>pd.read_excel\<close> raises for it (the
  sheet or the whole file is missing or unreadable); a sheet that was read is
  \<open>BadColumns\<close> when a column the code asks for is missing (for a thickness table also
  when a thickness is not a number), so that using it raises, and \<open>Frame rows\<close>
  otherwise. The text columns of the \<open>Master\<close> sheet hold text or are empty; its
  quantity is any cell. A \<open>WeightMap\<close> row is (\<open>PRODUCT\<close>, \<open>BRAND\<close>,
  \<open>WEIGHT_PER_PCS\<close>); a row of a thickness table is (\<open>THICKNESS\<close>, weight).
\<close>

datatype 'a frame = BadColumns | Frame "'a list"

record master_row =
  raw_PRODUCT :: "string option"
  raw_SIZE :: "string option"
  raw_CATEGORY :: "string option"
  raw_BRAND :: "string option"
  raw_QUANTITY :: cell

record workbook =
  Master :: "master_row frame option"
  CategoryMap :: "cat_rule frame option"
  WeightMap :: "(string \<times> string \<times> rat) frame option"
  HDMRWeightMap :: "(rat \<times> rat) frame option"
  MDFWeightMap :: "(rat \<times> rat) frame option"
  PlyWeightMap :: "(rat \<times> rat) frame option"
  PVCWeightMap :: "(rat \<times> rat) frame option"
  WPCBoardWeightMap :: "(rat \<times> rat) frame option"

text \<open>The eight data frames \<open>prepare_data\<close> works on after its first \<open>try\<close>.\<close>

record tables =
  master_df :: "master_row frame"
  cat_map_df :: "cat_rule frame"
  weight_map_df :: "(string \<times> string \<times> rat) frame"
  hdmr_map_df :: "(rat \<times> rat) frame"
  mdf_map_df :: "(rat \<times> rat) frame"
  ply_map_df :: "(rat \<times> rat) frame"
  pvc_map_df :: "(rat \<times> rat) frame"
  wpc_map_df :: "(rat \<times> rat) frame"

text \<open>
  The \<open>except\<close> branch of the first \<open>try\<close>: one built-in item, a wildcard-only category
  map and six empty frames (\<open>pd.DataFrame()\<close> has no rows, so building a map from it
  raises nothing).
\<close>

definition fallback_tables :: tables where
  "fallback_tables =
     \<lparr>master_df = Frame [\<lparr>raw_PRODUCT = Some ''Laminate'', raw_SIZE = Some ''72x48'',
                           raw_CATEGORY = Some ''SF'', raw_BRAND = Some ''Test'',
                           raw_QUANTITY = Num 10\<rparr>],
      cat_map_df = Frame [\<lparr>MATCH_KEYWORD = ''*'', NORMALIZED_CATEGORY = ''Default''\<rparr>],
      weight_map_df = Frame [], hdmr_map_df = Frame [], mdf_map_df = Frame [],
      ply_map_df = Frame [], pvc_map_df = Frame [], wpc_map_df = Frame []\<rparr>"

text \<open>
  The eight reads stand in one \<open>try\<close>: the first sheet that cannot be read sends
  control to the \<open>except\<close> branch, which replaces all eight frames.
\<close>

definition read_excel_all :: "workbook \<Rightarrow> tables" where
  "read_excel_all input_file =
     (case Master input_file of None \<Rightarrow> fallback_tables | Some d \<Rightarrow>
      case CategoryMap input_file of None \<Rightarrow> fallback_tables | Some c \<Rightarrow>
      case WeightMap input_file of None \<Rightarrow> fallback_tables | Some w \<Rightarrow>
      case HDMRWeightMap input_file of None \<Rightarrow> fallback_tables | Some h \<Rightarrow>
      case MDFWeightMap input_file of None \<Rightarrow> fallback_tables | Some m \<Rightarrow>
      case PlyWeightMap input_file of None \<Rightarrow> fallback_tables | Some p \<Rightarrow>
      case PVCWeightMap input_file of None \<Rightarrow> fallback_tables | Some v \<Rightarrow>
      case WPCBoardWeightMap input_file of None \<Rightarrow> fallback_tables | Some b \<Rightarrow>
        \<lparr>master_df = d, cat_map_df = c, weight_map_df = w, hdmr_map_df = h,
         mdf_map_df = m, ply_map_df = p, pvc_map_df = v, wpc_map_df = b\<rparr>)"

text \<open>A dict comprehension: a later row with the same key replaces an earlier one.\<close>

definition dict_of :: "('k \<times> 'v) list \<Rightarrow> ('k \<rightharpoonup> 'v)" where
  "dict_of kvs = map_of (rev kvs)"

definition weight_dict :: "(string \<times> string \<times> rat) frame \<Rightarrow> (string \<times> string \<rightharpoonup> rat)" where
  "weight_dict f =
     (case f of
        BadColumns \<Rightarrow> Map.empty
      | Frame rows \<Rightarrow> dict_of (map (\<lambda>(product, brand, w). ((lower product, upper brand), w)) rows))"

definition thickness_dict :: "(rat \<times> rat) frame \<Rightarrow> (rat \<rightharpoonup> rat)" where
  "thickness_dict f = (case f of BadColumns \<Rightarrow> Map.empty | Frame rows \<Rightarrow> dict_of rows)"

text \<open>
  A row of the frame \<open>prepare_data\<close> returns: the four text columns as stripped text,
  the numeric quantity, and the two added columns.
\<close>

record order_row =
  PRODUCT :: string
  SIZE :: string
  CATEGORY :: string
  BRAND :: string
  QUANTITY :: rat
  CATEGORY_NORM :: string
  SQFT :: rat

text \<open>
  \<open>pd.to_numeric(v, errors='coerce')\<close> on one cell, \<open>None\<close> for NaN: a number stays, text
  is read as a decimal, anything else is NaN.
\<close>

definition to_numeric :: "cell \<Rightarrow> rat option" where
  "to_numeric v = (case v of Null \<Rightarrow> None | Num q \<Rightarrow> Some q | Str s \<Rightarrow> py_float s)"

definition fillna :: "'a \<Rightarrow> 'a option \<Rightarrow> 'a" where
  "fillna d v = (case v of None \<Rightarrow> d | Some x \<Rightarrow> x)"

text \<open>
  What \<open>prepare_data\<close> does to one row: the category is normalised from the raw
  category and product, then the text columns are converted and stripped, the
  quantity is coerced, and the area is computed from the stripped size and the
  coerced quantity.
\<close>

definition annotate :: "cat_rule list \<Rightarrow> master_row \<Rightarrow> order_row" where
  "annotate cat_map row =
     (let category_norm =
            fillna ''UNSPECIFIED'' (normalize_category (raw_CATEGORY row) cat_map (raw_PRODUCT row));
          sz = strip (py_str (raw_SIZE row));
          quantity = fillna 0 (to_numeric (raw_QUANTITY row))
      in \<lparr>PRODUCT = strip (py_str (raw_PRODUCT row)),
          SIZE = sz,
          CATEGORY = strip (py_str (raw_CATEGORY row)),
          BRAND = strip (py_str (raw_BRAND row)),
          QUANTITY = quantity,
          CATEGORY_NORM = category_norm,
          SQFT = calculate_sqft (Str sz) quantity\<rparr>)"

text \<open>
  The sort key of \<open>sort_values(['BRAND', 'CATEGORY_NORM', 'PRODUCT', 'SIZE_NUMERIC'],
  na_position='last')\<close>: the brand, the position of the category in \<open>cat_order\<close> (the
  column is an ordered categorical), the product, and the size as a number with the
  sizes that are not numbers last. The sort is stable.
\<close>

definition cat_position :: "string list \<Rightarrow> string \<Rightarrow> nat" where
  "cat_position cat_order c = length (takeWhile (\<lambda>x. x \<noteq> c) cat_order)"

definition row_sort_key :: "string list \<Rightarrow> order_row \<Rightarrow> string \<times> nat \<times> string \<times> bool \<times> rat" where
  "row_sort_key cat_order r =
     (BRAND r, cat_position cat_order (CATEGORY_NORM r), PRODUCT r,
      (case py_float (SIZE r) of None \<Rightarrow> (True, 0) | Some v \<Rightarrow> (False, v)))"

datatype py_error = KeyError | ValueError

record prepared =
  df :: "order_row list"
  cat_order :: "string list"
  weight_map :: "string \<times> string \<rightharpoonup> rat"
  hdmr_map :: "rat \<rightharpoonup> rat"
  mdf_map :: "rat \<rightharpoonup> rat"
  ply_map :: "rat \<rightharpoonup> rat"
  pvc_map :: "rat \<rightharpoonup> rat"
  wpc_map :: "rat \<rightharpoonup> rat"

text \<open>
  \<open>prepare_data(input_file)\<close>. The exceptions that leave it:
  \<^item> a \<open>Master\<close> frame without one of its columns: \<open>KeyError\<close> at the first column access
    outside a \<open>try\<close>;
  \<^item> a \<open>Master\<close> frame without rows: \<open>df.apply(..., axis=1)\<close> gives a frame, not a column,
    and the assignment to \<open>df['SQFT']\<close> raises \<open>ValueError\<close>;
  \<^item> a \<open>CategoryMap\<close> frame without one of its columns: the category block is abandoned
    before \<open>CATEGORY_NORM\<close> exists, and both sorts raise \<open>KeyError\<close> on that column;
  \<^item> a category order with a repeated entry: \<open>pd.Categorical\<close> raises \<open>ValueError\<close>.
\<close>

definition prepare_data :: "workbook \<Rightarrow> py_error + prepared" where
  "prepare_data input_file =
     (let t = read_excel_all input_file in
      case master_df t of
        BadColumns \<Rightarrow> Inl KeyError
      | Frame rows \<Rightarrow>
          if rows = [] then Inl ValueError
          else (case cat_map_df t of
                  BadColumns \<Rightarrow> Inl KeyError
                | Frame cat_map \<Rightarrow>
                    (let mapped_categories = mapped_categories_of cat_map;
                         annotated = map (annotate cat_map) rows;
                         all_unique_categories = unique (map CATEGORY_NORM annotated);
                         order = build_cat_order mapped_categories all_unique_categories
                     in if \<not> distinct order then Inl ValueError
                        else Inr \<lparr>df = sort_key (row_sort_key order) annotated,
                                  cat_order = order,
                                  weight_map = weight_dict (weight_map_df t),
                                  hdmr_map = thickness_dict (hdmr_map_df t),
                                  mdf_map = thickness_dict (mdf_map_df t),
                                  ply_map = thickness_dict (ply_map_df t),
                                  pvc_map = thickness_dict (pvc_map_df t),
                                  wpc_map = thickness_dict (wpc_map_df t)\<rparr>)))"

subsection \<open>Derived-field formulas\<close>

text \<open>
  \<open>extract_thickness_from_category\<close>: \<open>re.match(r"(\d+\.?\d*)mm", ...)\<close> on the
  lower-cased text. The match starts at the first character: one or more digits, an
  optional point, more digits, then \<open>mm\<close>; the greedy reading is the only one that can
  succeed, since each part stops at a character the next part cannot take.
\<close>

definition extract_thickness_from_category :: "string \<Rightarrow> rat option" where
  "extract_thickness_from_category category =
     (let s = lower category;
          ip = takeWhile is_digit s;
          r1 = dropWhile is_digit s
      in if ip = [] then None
         else (case r1 of
                 [] \<Rightarrow> None
               | c # r2 \<Rightarrow>
                   if c = CHR ''.''
                   then (if prefix ''mm'' (dropWhile is_digit r2)
                         then unsigned_decimal (ip @ CHR ''.'' # takeWhile is_digit r2)
                         else None)
                   else (if prefix ''mm'' r1 then unsigned_decimal ip else None)))"

text \<open>
  \<open>get_sqft_formula(row, row_num)\<close>: the text written to the \<open>SQFT\<close> cell (column F).
\<close>

definition get_sqft_formula :: "order_row \<Rightarrow> nat \<Rightarrow> string" where
  "get_sqft_formula row row_num =
     (let product = lower (PRODUCT row); n = str_nat row_num in
      if product \<in> set [''laminate'', ''liner''] then ''0''
      else ''=LET(a,LEFT(B'' @ n @ '',1)*RIGHT(B'' @ n @ '',1)*E'' @ n
           @ '',b,LEFT(B'' @ n @ '',2)*RIGHT(B'' @ n @ '',2)/144*E'' @ n
           @ '',IF(LEN(B'' @ n @ '')<4,a,b))'')"

text \<open>
  \<open>get_weight_formula\<close>: the text written to the \<open>WEIGHT\<close> cell (column G). The two
  hard-coded weights are kept as the text their f-string gives (\<open>1.5\<close> and \<open>1\<close>); the text
  of a weight taken from a table is given by \<open>fmt\<close>, Python's \<open>str\<close> on that number.
\<close>

definition get_weight_formula ::
  "(rat \<Rightarrow> string) \<Rightarrow> order_row \<Rightarrow> (string \<times> string \<rightharpoonup> rat) \<Rightarrow> (rat \<rightharpoonup> rat) \<Rightarrow> (rat \<rightharpoonup> rat)
     \<Rightarrow> (rat \<rightharpoonup> rat) \<Rightarrow> (rat \<rightharpoonup> rat) \<Rightarrow> (rat \<rightharpoonup> rat) \<Rightarrow> nat \<Rightarrow> string" where
  "get_weight_formula fmt row weight_per_pc_map hdmr mdf ply pvc wpc row_num =
     (let product = lower (PRODUCT row);
          brand = upper (BRAND row);
          category = lower (CATEGORY row);
          hardcoded_weights = [(''door'', ''1.5''), (''board'', ''1'')];
          thickness_maps = [(''hdmr'', hdmr), (''mdf'', mdf), (''ply'', ply),
                            (''pvc door'', pvc), (''wpc board'', wpc)];
          n = str_nat row_num
      in case map_of hardcoded_weights product of
           Some weight_val \<Rightarrow> ''=F'' @ n @ ''*'' @ weight_val
         | None \<Rightarrow>
             (case (case map_of thickness_maps product of
                      None \<Rightarrow> None
                    | Some tmap \<Rightarrow>
                        (case extract_thickness_from_category category of
                           None \<Rightarrow> None
                         | Some thickness \<Rightarrow> tmap thickness)) of
                Some weight_val \<Rightarrow>
                  if product \<in> set [''ply'', ''pvc door'']
                  then ''=F'' @ n @ ''*'' @ fmt weight_val
                  else ''=E'' @ n @ ''*'' @ fmt weight_val
              | None \<Rightarrow>
                  (if product \<in> set [''laminate'', ''liner'']
                   then (case weight_per_pc_map (product, brand) of
                           Some weight_val \<Rightarrow> ''=E'' @ n @ ''*'' @ fmt weight_val
                         | None \<Rightarrow> ''0'')
                   else ''0'')))"

subsection \<open>Report writer\<close>

text \<open>
  The worksheet is the list of the rows written, each with its row number; styling,
  merged cells and column widths are left out. A data row has the seven cells A to G:
  product, size, category, brand, quantity (an integer), area formula, weight formula.
  A total cell holds a formula text or the integer 0.
\<close>

record data_cells =
  cell_A :: string
  cell_B :: string
  cell_C :: string
  cell_D :: string
  cell_E :: int
  cell_F :: string
  cell_G :: string

datatype total_cell = Formula string | Zero

datatype written_row =
    TitleRow string
  | InfoRow string string
  | HeaderRow "string list"
  | DataRow data_cells
  | CategoryTotal string string string string
  | BlankRow
  | BrandTotal string total_cell total_cell total_cell
  | SeparatorRow
  | GrandTotal total_cell total_cell total_cell
  | FooterRow string

type_synonym worksheet = "(nat \<times> written_row) list"

text \<open>The body of the loop over \<open>category_group.iterrows()\<close> for one row.\<close>

definition write_data_row ::
  "(rat \<Rightarrow> string) \<Rightarrow> prepared \<Rightarrow> order_row \<Rightarrow> nat \<Rightarrow> data_cells" where
  "write_data_row fmt maps row current_row =
     \<lparr>cell_A = PRODUCT row,
      cell_B = SIZE row,
      cell_C = CATEGORY row,
      cell_D = BRAND row,
      cell_E = py_int (QUANTITY row),
      cell_F = get_sqft_formula row current_row,
      cell_G = get_weight_formula fmt row (weight_map maps) (hdmr_map maps) (mdf_map maps)
                 (ply_map maps) (pvc_map maps) (wpc_map maps) current_row\<rparr>"

text \<open>
  \<open>groupby(key, sort=False)\<close>: the groups in the order in which their keys first occur,
  each with its rows in frame order. (A category of the categorical column that no row
  of the brand has gives an empty group, which writes nothing.)
\<close>

fun groupby :: "('a \<Rightarrow> 'k) \<Rightarrow> 'a list \<Rightarrow> ('k \<times> 'a list) list" where
  "groupby key [] = []"
| "groupby key (x # xs) =
     (key x, x # filter (\<lambda>y. key y = key x) xs) # groupby key (filter (\<lambda>y. key y \<noteq> key x) xs)"

definition join_comma :: "string list \<Rightarrow> string" where
  "join_comma parts = (case parts of [] \<Rightarrow> [] | p # ps \<Rightarrow> p @ concat (map (\<lambda>q. CHR '','' # q) ps))"

text \<open>A range of one column, \<open>E11:E14\<close>, and the sum over some ranges.\<close>

definition col_range :: "char \<Rightarrow> nat \<times> nat \<Rightarrow> string" where
  "col_range col r = col # str_nat (fst r) @ '':'' @ col # str_nat (snd r)"

definition sum_of_ranges :: "char \<Rightarrow> (nat \<times> nat) list \<Rightarrow> total_cell" where
  "sum_of_ranges col ranges =
     (if ranges = [] then Zero
      else Formula (''=SUM('' @ join_comma (map (col_range col) ranges) @ '')''))"

text \<open>
  The loop over the category groups of one brand. The state is the row number; the
  result is the rows written, the next row number and the row ranges of the groups
  (the three range lists of the source name the same rows in columns E, F and G).
\<close>

fun write_category_groups ::
  "(order_row \<Rightarrow> nat \<Rightarrow> data_cells) \<Rightarrow> (string \<times> order_row list) list \<Rightarrow> nat
     \<Rightarrow> worksheet \<times> nat \<times> (nat \<times> nat) list" where
  "write_category_groups mk [] current_row = ([], current_row, [])"
| "write_category_groups mk ((category_name, category_group) # rest) current_row =
     (let category_data_start_row = current_row;
          data = map (\<lambda>(i, row). (current_row + i, DataRow (mk row (current_row + i))))
                   (enumerate 0 category_group);
          row1 = current_row + length category_group;
          (subtotal, row2, rng) =
            (if row1 > category_data_start_row
             then (let r = (category_data_start_row, row1 - 1) in
                   ([(row1, CategoryTotal category_name
                              (''=SUM('' @ col_range (CHR ''E'') r @ '')'')
                              (''=SUM('' @ col_range (CHR ''F'') r @ '')'')
                              (''=SUM('' @ col_range (CHR ''G'') r @ '')'')),
                     (row1 + 1, BlankRow)],
                    row1 + 2, [r]))
             else ([], row1, []));
          (out, row3, ranges) = write_category_groups mk rest row2
      in (data @ subtotal @ out, row3, rng @ ranges))"

text \<open>The loop over the brand groups.\<close>

fun write_brand_groups ::
  "(order_row \<Rightarrow> nat \<Rightarrow> data_cells) \<Rightarrow> (string \<times> order_row list) list \<Rightarrow> nat
     \<Rightarrow> worksheet \<times> nat \<times> (nat \<times> nat) list" where
  "write_brand_groups mk [] current_row = ([], current_row, [])"
| "write_brand_groups mk ((brand_name, brand_group) # rest) current_row =
     (let (out1, row1, brand_ranges) =
            write_category_groups mk (groupby CATEGORY_NORM brand_group) current_row;
          (total, row2) =
            (if length brand_group > 0
             then ([(row1, BrandTotal (''BRAND TOTAL: '' @ brand_name)
                             (sum_of_ranges (CHR ''E'') brand_ranges)
                             (sum_of_ranges (CHR ''F'') brand_ranges)
                             (sum_of_ranges (CHR ''G'') brand_ranges)),
                    (row1 + 1, BlankRow)], row1 + 2)
             else ([], row1));
          (out2, row3, all_ranges) = write_brand_groups mk rest row2
      in (out1 @ total @ out2, row3, brand_ranges @ all_ranges))"

definition or_na :: "string \<Rightarrow> string" where
  "or_na v = (if v = [] then ''N/A'' else v)"

text \<open>
  \<open>write_report\<close>: the two title rows, the five information rows from row 4 (the order
  id is issued here), the column header in row 10, the grouped data from row 11, the
  separator, the grand total and the footer. The result is the counter store after the
  call and the worksheet.
\<close>

definition write_report ::
  "(rat \<Rightarrow> string) \<Rightarrow> counters option \<Rightarrow> datetime \<Rightarrow> prepared
     \<Rightarrow> string \<Rightarrow> string \<Rightarrow> string \<Rightarrow> string \<Rightarrow> counters option \<times> worksheet" where
  "write_report fmt db now p dealer_name city order_date freight_condition =
     (let (db1, unique_id) = generate_unique_order_id db now;
          top = [(1, TitleRow ''PROVISIONAL ORDER''), (2, TitleRow ''N T WOOD.PVT. LTD''),
                 (4, InfoRow ''DATE'' (or_na order_date)),
                 (5, InfoRow ''DEALER NAME'' (or_na dealer_name)),
                 (6, InfoRow ''CITY'' (or_na city)),
                 (7, InfoRow ''FREIGHT CONDITION'' (or_na freight_condition)),
                 (8, InfoRow ''ORDER ID'' (or_na unique_id)),
                 (10, HeaderRow [''PRODUCT'', ''SIZE'', ''CATEGORY'', ''BRAND'',
                                 ''QUANTITY'', ''SQFT'', ''WEIGHT''])];
          (body, row1, all_ranges) =
            write_brand_groups (write_data_row fmt p) (groupby BRAND (df p)) 11;
          footer_text = ''Report Generated by NT Wood Management System | Total Items: ''
                        @ str_nat (length (df p)) @ '' | Brands: ''
                        @ str_nat (length (unique (map BRAND (df p))))
      in (db1,
          top @ body
          @ [(row1, SeparatorRow),
             (row1 + 1, GrandTotal (sum_of_ranges (CHR ''E'') all_ranges)
                          (sum_of_ranges (CHR ''F'') all_ranges)
                          (sum_of_ranges (CHR ''G'') all_ranges)),
             (row1 + 2, FooterRow footer_text)]))"

subsection \<open>The meaning of the area formula\<close>

text \<open>
  The area cell holds a spreadsheet formula, so what it shows is decided by the
  spreadsheet functions it names. The part of the formula language that
  \<open>get_sqft_formula\<close> uses is modelled here as a small expression type with its text and
  its value.
  \<^item> \<open>LEFT(t, k)\<close> and \<open>RIGHT(t, k)\<close> are the first and last \<open>k\<close> characters of a text,
    \<open>LEN(t)\<close> its length. They are modelled on text, which is what column B holds.
  \<^item> \<open>*\<close>, \<open>/\<close> and \<open><\<close> turn their operands into numbers: a number is itself, a text is
    read as a decimal, and a text that is not a number gives the error value.
  \<^item> An error value is a value: \<open>IF\<close> returns the branch it selects whatever the other
    branch is, and \<open>LET\<close> binds names to values in order.
\<close>

datatype xl =
    XNum nat
  | XRef char nat
  | XVar string
  | XLeft xl nat
  | XRight xl nat
  | XLen xl
  | XMul xl xl
  | XDiv xl xl
  | XLess xl xl
  | XIf xl xl xl
  | XLet2 string xl string xl xl

fun xl_text :: "xl \<Rightarrow> string" where
  "xl_text (XNum k) = str_nat k"
| "xl_text (XRef col r) = col # str_nat r"
| "xl_text (XVar v) = v"
| "xl_text (XLeft e k) = ''LEFT('' @ xl_text e @ '','' @ str_nat k @ '')''"
| "xl_text (XRight e k) = ''RIGHT('' @ xl_text e @ '','' @ str_nat k @ '')''"
| "xl_text (XLen e) = ''LEN('' @ xl_text e @ '')''"
| "xl_text (XMul a b) = xl_text a @ ''*'' @ xl_text b"
| "xl_text (XDiv a b) = xl_text a @ ''/'' @ xl_text b"
| "xl_text (XLess a b) = xl_text a @ ''<'' @ xl_text b"
| "xl_text (XIf c a b) = ''IF('' @ xl_text c @ '','' @ xl_text a @ '','' @ xl_text b @ '')''"
| "xl_text (XLet2 v1 e1 v2 e2 body) =
     ''LET('' @ v1 @ '','' @ xl_text e1 @ '','' @ v2 @ '','' @ xl_text e2 @ '','' @ xl_text body @ '')''"

datatype xval = VNum rat | VText string | VBool bool | VErr

definition xl_number :: "xval \<Rightarrow> rat option" where
  "xl_number v =
     (case v of
        VNum q \<Rightarrow> Some q
      | VText t \<Rightarrow> py_float t
      | VBool b \<Rightarrow> Some (if b then 1 else 0)
      | VErr \<Rightarrow> None)"

definition xl_arith :: "(rat \<Rightarrow> rat \<Rightarrow> xval) \<Rightarrow> xval \<Rightarrow> xval \<Rightarrow> xval" where
  "xl_arith f u v =
     (case xl_number u of
        None \<Rightarrow> VErr
      | Some x \<Rightarrow> (case xl_number v of None \<Rightarrow> VErr | Some y \<Rightarrow> f x y))"

fun xl_eval :: "(char \<Rightarrow> nat \<Rightarrow> xval) \<Rightarrow> (string \<times> xval) list \<Rightarrow> xl \<Rightarrow> xval" where
  "xl_eval sheet env (XNum k) = VNum (of_nat k)"
| "xl_eval sheet env (XRef col r) = sheet col r"
| "xl_eval sheet env (XVar v) = (case map_of env v of None \<Rightarrow> VErr | Some x \<Rightarrow> x)"
| "xl_eval sheet env (XLeft e k) =
     (case xl_eval sheet env e of VText t \<Rightarrow> VText (take k t) | _ \<Rightarrow> VErr)"
| "xl_eval sheet env (XRight e k) =
     (case xl_eval sheet env e of VText t \<Rightarrow> VText (drop (length t - k) t) | _ \<Rightarrow> VErr)"
| "xl_eval sheet env (XLen e) =
     (case xl_eval sheet env e of VText t \<Rightarrow> VNum (of_nat (length t)) | _ \<Rightarrow> VErr)"
| "xl_eval sheet env (XMul a b) =
     xl_arith (\<lambda>x y. VNum (x * y)) (xl_eval sheet env a) (xl_eval sheet env b)"
| "xl_eval sheet env (XDiv a b) =
     xl_arith (\<lambda>x y. if y = 0 then VErr else VNum (x / y)) (xl_eval sheet env a) (xl_eval sheet env b)"
| "xl_eval sheet env (XLess a b) =
     xl_arith (\<lambda>x y. VBool (x < y)) (xl_eval sheet env a) (xl_eval sheet env b)"
| "xl_eval sheet env (XIf c a b) =
     (case xl_eval sheet env c of
        VBool t \<Rightarrow> if t then xl_eval sheet env a else xl_eval sheet env b
      | VNum q \<Rightarrow> if q \<noteq> 0 then xl_eval sheet env a else xl_eval sheet env b
      | _ \<Rightarrow> VErr)"
| "xl_eval sheet env (XLet2 v1 e1 v2 e2 body) =
     (let env1 = (v1, xl_eval sheet env e1) # env;
          env2 = (v2, xl_eval sheet env1 e2) # env1
      in xl_eval sheet env2 body)"

text \<open>The formula of \<open>get_sqft_formula\<close> for row \<open>n\<close>, as an expression.\<close>

definition sqft_expr :: "nat \<Rightarrow> xl" where
  "sqft_expr n =
     XLet2 ''a'' (XMul (XMul (XLeft (XRef (CHR ''B'') n) 1) (XRight (XRef (CHR ''B'') n) 1))
                       (XRef (CHR ''E'') n))
           ''b'' (XMul (XDiv (XMul (XLeft (XRef (CHR ''B'') n) 2) (XRight (XRef (CHR ''B'') n) 2))
                             (XNum 144))
                       (XRef (CHR ''E'') n))
           (XIf (XLess (XLen (XRef (CHR ''B'') n)) (XNum 4)) (XVar ''a'') (XVar ''b''))"

text \<open>
  The cells of a data row as the formula sees them: column B is the size text, column E
  the integer quantity; the other cells are not referred to.
\<close>

definition row_sheet :: "data_cells \<Rightarrow> nat \<Rightarrow> char \<Rightarrow> nat \<Rightarrow> xval" where
  "row_sheet c n col r =
     (if r = n \<and> col = CHR ''B'' then VText (cell_B c)
      else if r = n \<and> col = CHR ''E'' then VNum (of_int (cell_E c))
      else VErr)"

text \<open>
  Two shapes of size text: one digit, \<open>x\<close>, one digit (\<open>8x4\<close>); and two digits, \<open>x\<close>, two
  digits with at least one side above 15 (\<open>72x48\<close>).
\<close>

definition digit_x_digit :: "string \<Rightarrow> bool" where
  "digit_x_digit s =
     (case s of [d1, x, d2] \<Rightarrow> is_digit d1 \<and> is_xX x \<and> is_digit d2 | _ \<Rightarrow> False)"

definition two_x_two_inches :: "string \<Rightarrow> bool" where
  "two_x_two_inches s =
     (case s of
        [a, b, x, c, d] \<Rightarrow>
          is_digit a \<and> is_digit b \<and> is_xX x \<and> is_digit c \<and> is_digit d
          \<and> (15 < nat_of_digits [a, b] \<or> 15 < nat_of_digits [c, d])
      | _ \<Rightarrow> False)"

subsection \<open>Example inputs\<close>

text \<open>
  A workbook with the given item rows and category rules, every sheet present and the
  six weight sheets empty; and an item row from its five cells.
\<close>

definition example_workbook :: "master_row list \<Rightarrow> cat_rule list \<Rightarrow> workbook" where
  "example_workbook rows rules =
     \<lparr>Master = Some (Frame rows), CategoryMap = Some (Frame rules),
      WeightMap = Some (Frame []), HDMRWeightMap = Some (Frame []),
      MDFWeightMap = Some (Frame []), PlyWeightMap = Some (Frame []),
      PVCWeightMap = Some (Frame []), WPCBoardWeightMap = Some (Frame [])\<rparr>"

definition item :: "string \<Rightarrow> string \<Rightarrow> string option \<Rightarrow> string \<Rightarrow> cell \<Rightarrow> master_row" where
  "item product sz category brand quantity =
     \<lparr>raw_PRODUCT = Some product, raw_SIZE = Some sz, raw_CATEGORY = category,
      raw_BRAND = Some brand, raw_QUANTITY = quantity\<rparr>"

definition rule :: "string \<Rightarrow> string \<Rightarrow> cat_rule" where
  "rule keyword target = \<lparr>MATCH_KEYWORD = keyword, NORMALIZED_CATEGORY = target\<rparr>"

section \<open>Properties\<close>

subsection \<open>Text helpers\<close>

lemma split_where_none: "list_all (\<lambda>c. \<not> P c) p \<Longrightarrow> split_where P p = [p]"
  by (induction p) auto

lemma split_where_one:
  "list_all (\<lambda>c. \<not> P c) p0 \<Longrightarrow> P c \<Longrightarrow> split_where P (p0 @ c # p1) = p0 # split_where P p1"
  by (induction p0) auto

lemma upper_char_x: "upper_char (CHR ''x'') = CHR ''X''" "upper_char (CHR ''X'') = CHR ''X''"
  by code_simp+

lemma is_xX_upper: "is_xX c \<Longrightarrow> upper_char c = CHR ''X''"
  by (auto simp: is_xX_def upper_char_x)

lemma is_xX_not_space: "is_xX c \<Longrightarrow> \<not> is_space c"
  by (auto simp: is_xX_def is_space_def)

lemma is_xX_not_digit: "is_xX c \<Longrightarrow> \<not> is_digit c"
  by (auto simp: is_xX_def is_digit_def)

lemma set_dropWhile_cover: "c \<in> set xs \<Longrightarrow> P c \<or> c \<in> set (dropWhile P xs)"
  by (induction xs) auto

lemma set_strip_cover: "c \<in> set s \<Longrightarrow> is_space c \<or> c \<in> set (strip s)"
  unfolding strip_def
  using set_dropWhile_cover[of c s is_space]
    set_dropWhile_cover[of c "rev (dropWhile is_space s)" is_space]
  by auto

lemma unsigned_decimal_chars:
  assumes "unsigned_decimal t = Some v" "c \<in> set t"
  shows "is_digit c \<or> c = CHR ''.''"
proof -
  have t: "t = takeWhile is_digit t @ dropWhile is_digit t" by simp
  show ?thesis
  proof (cases "dropWhile is_digit t")
    case Nil
    then have "takeWhile is_digit t = t" using t by simp
    then have "\<forall>x\<in>set t. is_digit x" by (metis set_takeWhileD)
    with assms show ?thesis by blast
  next
    case (Cons d fp)
    with assms(1) have d: "d = CHR ''.''" and fp: "list_all is_digit fp"
      by (auto simp: unsigned_decimal_def Let_def split: if_splits)
    have "c \<in> set (takeWhile is_digit t) \<or> c \<in> set (d # fp)"
      using assms(2) t Cons by (metis Un_iff set_append)
    then show ?thesis using d fp by (auto simp: list_all_iff dest: set_takeWhileD)
  qed
qed

text \<open>A text that \<open>float\<close> accepts holds no \<open>x\<close>: the two parts of a size are free of separators.\<close>

lemma py_float_no_xX:
  assumes "py_float p = Some v"
  shows "list_all (\<lambda>c. \<not> is_xX c) p"
proof -
  have "\<not> is_xX c" if c: "c \<in> set p" for c
  proof
    assume x: "is_xX c"
    then have "c \<in> set (strip p)" using set_strip_cover[OF c] is_xX_not_space by blast
    moreover obtain d ds where s: "strip p = d # ds"
      using assms by (auto simp: py_float_def split: list.splits)
    moreover have "\<exists>w. unsigned_decimal ds = Some w" if "d = CHR ''-'' \<or> d = CHR ''+''"
      using assms s that by (auto simp: py_float_def split: if_splits)
    moreover have "\<exists>w. unsigned_decimal (d # ds) = Some w" if "d \<noteq> CHR ''-''" "d \<noteq> CHR ''+''"
      using assms s that by (auto simp: py_float_def)
    ultimately have "is_digit c \<or> c = CHR ''.'' \<or> c = CHR ''-'' \<or> c = CHR ''+''"
      using unsigned_decimal_chars by (metis set_ConsD)
    with x show False using is_xX_not_digit by (auto simp: is_xX_def)
  qed
  then show ?thesis by (simp add: list_all_iff)
qed

subsection \<open>Area of a size \<open>LxB\<close>\<close>

lemma calculate_sqft_parts:
  assumes "is_xX sep" and "py_float p0 = Some L" and "py_float p1 = Some B"
  shows "calculate_sqft (Str (p0 @ sep # p1)) q =
           (if L \<le> 15 \<and> B \<le> 15 then L * B * q else (L * B / 144) * q)"
proof -
  have "split_where is_xX (p0 @ sep # p1) = [p0, p1]"
    using assms by (simp add: split_where_one split_where_none py_float_no_xX)
  moreover have "CHR ''X'' \<in> set (upper (p0 @ sep # p1))"
    using assms(1) by (simp add: upper_def is_xX_upper)
  ultimately show ?thesis using assms by (simp add: calculate_sqft_def)
qed

text \<open>
  Claim C5. For a size text \<open>L\<close>, separator \<open>x\<close> or \<open>X\<close>, \<open>B\<close>, where \<open>float\<close> reads the two
  parts as the numbers \<open>L\<close> and \<open>B\<close>, and for every quantity \<open>q\<close>: when both numbers are
  at most 15 the area is \<open>L * B * q\<close>, and when one of them is above 15 the area is
  \<open>(L * B / 144) * q\<close>.
\<close>

theorem calculate_sqft_LxB:
  assumes "is_xX sep" and "py_float p0 = Some L" and "py_float p1 = Some B"
  shows "(L \<le> 15 \<and> B \<le> 15 \<longrightarrow> calculate_sqft (Str (p0 @ sep # p1)) q = L * B * q)
       \<and> (15 < L \<or> 15 < B \<longrightarrow> calculate_sqft (Str (p0 @ sep # p1)) q = (L * B / 144) * q)"
  using calculate_sqft_parts[OF assms, of q] by auto

theorem calculate_sqft_LxB_witness:
  "calculate_sqft (Str ''8X4'') 10 = 320 \<and> calculate_sqft (Str ''72x48'') 10 = 240"
proof -
  have x: "is_xX (CHR ''x'')" and X: "is_xX (CHR ''X'')" by (simp_all add: is_xX_def)
  have p8: "py_float ''8'' = Some 8" and p4: "py_float ''4'' = Some 4"
    and p72: "py_float ''72'' = Some 72" and p48: "py_float ''48'' = Some 48"
    by code_simp+
  have "calculate_sqft (Str ''8X4'') 10 = 320"
    using calculate_sqft_LxB[OF X p8 p4, of 10] by simp
  moreover have "calculate_sqft (Str ''72x48'') 10 = 240"
    using calculate_sqft_LxB[OF x p72 p48, of 10] by simp
  ultimately show ?thesis by simp
qed

subsection \<open>Category normaliser\<close>

lemma scan_rules_no_match:
  "list_all (\<lambda>r. \<not> rule_matches (upper (MATCH_KEYWORD r)) raw_cat) cat_map
   \<Longrightarrow> scan_rules cat_map raw_cat = None"
  by (induction cat_map) (auto simp: Let_def)

text \<open>
  Claim C7, as amended. For a product whose lower-cased name is \<open>laminate\<close> or \<open>liner\<close>
  and a category that is present and has no \<open>TEX\<close> in its upper-cased form: when the
  table has no wildcard row and no row of it matches, \<open>normalize_category\<close> returns the
  category converted to upper case. It is the text that was passed in exactly when
  that text has no lower-case letter.
\<close>

theorem normalize_category_unmatched:
  assumes "lower (py_str product) = ''laminate'' \<or> lower (py_str product) = ''liner''"
    and "\<not> str_in ''TEX'' (upper raw)"
    and "list_all (\<lambda>r. MATCH_KEYWORD r \<noteq> ''*'') cat_map"
    and "list_all (\<lambda>r. \<not> rule_matches (upper (MATCH_KEYWORD r)) (upper raw)) cat_map"
  shows "normalize_category (Some raw) cat_map product = Some (upper raw)
       \<and> (normalize_category (Some raw) cat_map product = Some raw \<longleftrightarrow> upper raw = raw)"
proof -
  have "filter (\<lambda>r. MATCH_KEYWORD r = ''*'') cat_map = []"
    using assms(3) by (induction cat_map) auto
  then have "normalize_category (Some raw) cat_map product = Some (upper raw)"
    using assms(1,2) scan_rules_no_match[OF assms(4)]
    by (auto simp: normalize_category_def Let_def)
  then show ?thesis by auto
qed

theorem normalize_category_unmatched_witness:
  "normalize_category (Some ''Matte'') [\<lparr>MATCH_KEYWORD = ''HG'', NORMALIZED_CATEGORY = ''HG''\<rparr>]
     (Some ''Laminate'') = Some ''MATTE''"
proof -
  have 1: "lower (py_str (Some ''Laminate'')) = ''laminate''
           \<or> lower (py_str (Some ''Laminate'')) = ''liner''"
    by code_simp
  have 2: "\<not> str_in ''TEX'' (upper ''Matte'')" by code_simp
  have 3: "list_all (\<lambda>r. MATCH_KEYWORD r \<noteq> ''*'')
             [\<lparr>MATCH_KEYWORD = ''HG'', NORMALIZED_CATEGORY = ''HG''\<rparr>]"
    by simp
  have 4: "list_all (\<lambda>r. \<not> rule_matches (upper (MATCH_KEYWORD r)) (upper ''Matte''))
             [\<lparr>MATCH_KEYWORD = ''HG'', NORMALIZED_CATEGORY = ''HG''\<rparr>]"
    by code_simp
  have 5: "upper ''Matte'' = ''MATTE''" by code_simp
  show ?thesis using normalize_category_unmatched[OF 1 2 3 4] 5 by simp
qed

text \<open>
  The claim as first stated fails: with an empty table a lower-case category of a
  liner comes back in upper case, not unchanged.
\<close>

theorem normalize_category_case_counterexample:
  "normalize_category (Some ''sf gloss'') [] (Some ''liner'') = Some ''SF GLOSS''
   \<and> normalize_category (Some ''sf gloss'') [] (Some ''liner'') \<noteq> Some ''sf gloss''"
  by code_simp

subsection \<open>Category order\<close>

lemma set_unique [simp]: "set (unique xs) = set xs"
  by (induction xs rule: unique.induct) auto

lemma distinct_unique [simp]: "distinct (unique xs)"
  by (induction xs rule: unique.induct) auto

lemma unique_all_same: "x \<in> set xs \<Longrightarrow> list_all (\<lambda>y. y = x) xs \<Longrightarrow> unique xs = [x]"
proof (cases xs)
  case Nil
  then show "x \<in> set xs \<Longrightarrow> ?thesis" by simp
next
  case (Cons y ys)
  assume "list_all (\<lambda>y. y = x) xs"
  then have "y = x" "filter (\<lambda>z. z \<noteq> x) ys = []"
    using Cons by (auto simp: list_all_iff filter_empty_conv)
  then show ?thesis using Cons by simp
qed

text \<open>The last loop of the category block appends what is left, each value once.\<close>

lemma fold_leftover:
  "fold (\<lambda>cat acc. if cat \<notin> set acc then acc @ [cat] else acc) xs acc
     = acc @ unique (filter (\<lambda>x. x \<notin> set acc) xs)"
proof (induction xs arbitrary: acc)
  case Nil
  then show ?case by simp
next
  case (Cons x xs)
  show ?case
  proof (cases "x \<in> set acc")
    case True
    then show ?thesis using Cons.IH[of acc] by simp
  next
    case False
    have "filter (\<lambda>y. y \<noteq> x) (filter (\<lambda>y. y \<notin> set acc) xs)
            = filter (\<lambda>y. y \<notin> set (acc @ [x])) xs"
      by (induction xs) auto
    then show ?thesis using False Cons.IH[of "acc @ [x]"] by simp
  qed
qed

lemma build_cat_order_example:
  assumes "set present = {''SF'', ''Z'', ''HG'', ''TEX CATEGORY''}"
  shows "build_cat_order [''HG'', ''Z''] present = [''HG'', ''Z'', ''TEX CATEGORY'', ''SF'']"
proof -
  let ?left = "filter (\<lambda>x. x \<noteq> ''TEX CATEGORY'' \<and> x \<noteq> ''Z'' \<and> x \<noteq> ''HG'') present"
  have mem: "''SF'' \<in> set present" "''Z'' \<in> set present" "''HG'' \<in> set present"
    "''TEX CATEGORY'' \<in> set present" "''UNSPECIFIED'' \<notin> set present"
    using assms by auto
  have "list_all (\<lambda>y. y = ''SF'') ?left"
    using assms by (auto simp: list_all_iff)
  moreover have "''SF'' \<in> set ?left"
    using mem by simp
  ultimately have "unique ?left = [''SF'']"
    by (rule unique_all_same[rotated])
  then show ?thesis
    using mem by (simp add: build_cat_order_def fold_leftover)
qed

text \<open>Every category that is present is in the order, and nothing else is.\<close>

lemma set_build_cat_order: "set (build_cat_order mapped present) = set present"
  by (auto simp: build_cat_order_def fold_leftover Let_def)

text \<open>
  The order has no repeated entry unless \<open>UNSPECIFIED\<close> is both a target of the mapping
  table and a category of the data.
\<close>

lemma distinct_build_cat_order:
  assumes "distinct mapped" "''UNSPECIFIED'' \<notin> set mapped \<or> ''UNSPECIFIED'' \<notin> set present"
  shows "distinct (build_cat_order mapped present)"
  using assms by (auto simp: build_cat_order_def fold_leftover Let_def)

subsection \<open>Loader\<close>

lemma prepare_data_Inr:
  assumes "prepare_data wb = Inr p"
  obtains rows cm where
    "master_df (read_excel_all wb) = Frame rows" "rows \<noteq> []"
    "cat_map_df (read_excel_all wb) = Frame cm"
    "cat_order p = build_cat_order (mapped_categories_of cm)
                     (unique (map CATEGORY_NORM (map (annotate cm) rows)))"
    "distinct (cat_order p)"
    "df p = sort_key (row_sort_key (cat_order p)) (map (annotate cm) rows)"
    "weight_map p = weight_dict (weight_map_df (read_excel_all wb))"
    "hdmr_map p = thickness_dict (hdmr_map_df (read_excel_all wb))"
    "mdf_map p = thickness_dict (mdf_map_df (read_excel_all wb))"
    "ply_map p = thickness_dict (ply_map_df (read_excel_all wb))"
    "pvc_map p = thickness_dict (pvc_map_df (read_excel_all wb))"
    "wpc_map p = thickness_dict (wpc_map_df (read_excel_all wb))"
  using assms unfolding prepare_data_def Let_def
  by (auto split: frame.splits if_splits)

lemma prepare_data_returns: "\<not> isl (prepare_data wb) \<Longrightarrow> \<exists>p. prepare_data wb = Inr p"
  by (cases "prepare_data wb") auto

text \<open>When \<open>prepare_data\<close> returns, its category order holds the categories of its rows.\<close>

lemma prepared_categories:
  assumes "prepare_data wb = Inr p"
  shows "set (cat_order p) = set (map CATEGORY_NORM (df p))"
  using assms by (elim prepare_data_Inr) (simp add: set_build_cat_order image_image)

text \<open>
  Claim C2, as amended. When the categories present among the rows are \<open>SF\<close>, \<open>Z\<close>,
  \<open>HG\<close> and \<open>TEX CATEGORY\<close> and the non-wildcard targets of the mapping table are, in
  file order, \<open>HG\<close> and \<open>Z\<close>, the category order computed by \<open>prepare_data\<close> is
  \<open>HG\<close>, \<open>Z\<close>, \<open>TEX CATEGORY\<close>, \<open>SF\<close>: a category is put first only when it is also a
  target of the mapping table, and \<open>SF\<close>, which is not, comes with the leftovers.
\<close>

theorem cat_order_HG_Z:
  assumes "prepare_data wb = Inr p"
    and "cat_map_df (read_excel_all wb) = Frame cm"
    and "mapped_categories_of cm = [''HG'', ''Z'']"
    and "set (map CATEGORY_NORM (df p)) = {''SF'', ''Z'', ''HG'', ''TEX CATEGORY''}"
  shows "cat_order p = [''HG'', ''Z'', ''TEX CATEGORY'', ''SF'']"
proof -
  from assms(1) obtain rows cm' where
    cm': "cat_map_df (read_excel_all wb) = Frame cm'" and
    co: "cat_order p = build_cat_order (mapped_categories_of cm')
                     (unique (map CATEGORY_NORM (map (annotate cm') rows)))" and
    d: "df p = sort_key (row_sort_key (cat_order p)) (map (annotate cm') rows)"
    by (elim prepare_data_Inr)
  have "cm' = cm" using cm' assms(2) by simp
  moreover have "set (unique (map CATEGORY_NORM (map (annotate cm') rows)))
                   = {''SF'', ''Z'', ''HG'', ''TEX CATEGORY''}"
    using assms(4) d by (simp add: image_image)
  ultimately show ?thesis using co assms(3) build_cat_order_example by simp
qed

theorem cat_order_HG_Z_witness:
  "case prepare_data (example_workbook
          [item ''Door'' ''8x4'' (Some ''SF'') ''B1'' (Num 1),
           item ''Laminate'' ''8x4'' (Some ''z gloss'') ''B1'' (Num 1),
           item ''Laminate'' ''8x4'' (Some ''hg'') ''B1'' (Num 1),
           item ''Door'' ''8x4'' (Some ''tex'') ''B1'' (Num 1)]
          [rule ''HG'' ''HG'', rule ''Z'' ''Z'']) of
     Inl e \<Rightarrow> False
   | Inr p \<Rightarrow> cat_order p = [''HG'', ''Z'', ''TEX CATEGORY'', ''SF'']"
proof -
  let ?rules = "[rule ''HG'' ''HG'', rule ''Z'' ''Z'']"
  let ?wb = "example_workbook
          [item ''Door'' ''8x4'' (Some ''SF'') ''B1'' (Num 1),
           item ''Laminate'' ''8x4'' (Some ''z gloss'') ''B1'' (Num 1),
           item ''Laminate'' ''8x4'' (Some ''hg'') ''B1'' (Num 1),
           item ''Door'' ''8x4'' (Some ''tex'') ''B1'' (Num 1)] ?rules"
  have "\<not> isl (prepare_data ?wb)" by code_simp
  then obtain p where p: "prepare_data ?wb = Inr p" using prepare_data_returns by blast
  have cm: "cat_map_df (read_excel_all ?wb) = Frame ?rules"
    by (simp add: read_excel_all_def example_workbook_def)
  have mapped: "mapped_categories_of ?rules = [''HG'', ''Z'']" by code_simp
  have "case prepare_data ?wb of Inl e \<Rightarrow> False
        | Inr p \<Rightarrow> map CATEGORY_NORM (df p) = [''HG'', ''Z'', ''TEX CATEGORY'', ''SF'']"
    by code_simp
  then have "set (map CATEGORY_NORM (df p)) = {''SF'', ''Z'', ''HG'', ''TEX CATEGORY''}"
    using p by auto
  from cat_order_HG_Z[OF p cm mapped this] show ?thesis using p by simp
qed

text \<open>
  The claim as first stated fails on the same input: the categories present and the
  mapping order are those of the claim, and the order is not the one it gives.
\<close>

theorem cat_order_SF_first_counterexample:
  "case prepare_data (example_workbook
          [item ''Door'' ''8x4'' (Some ''SF'') ''B1'' (Num 1),
           item ''Laminate'' ''8x4'' (Some ''z gloss'') ''B1'' (Num 1),
           item ''Laminate'' ''8x4'' (Some ''hg'') ''B1'' (Num 1),
           item ''Door'' ''8x4'' (Some ''tex'') ''B1'' (Num 1)]
          [rule ''HG'' ''HG'', rule ''Z'' ''Z'']) of
     Inl e \<Rightarrow> False
   | Inr p \<Rightarrow> unique (map CATEGORY_NORM (df p)) = [''HG'', ''Z'', ''TEX CATEGORY'', ''SF'']
            \<and> mapped_categories_of [rule ''HG'' ''HG'', rule ''Z'' ''Z''] = [''HG'', ''Z'']
            \<and> cat_order p \<noteq> [''SF'', ''HG'', ''Z'', ''TEX CATEGORY'']"
  by code_simp

text \<open>
  Claim C3 fails on the code. A mapping table with the target \<open>UNSPECIFIED\<close> and a row
  with an empty category give the category order \<open>UNSPECIFIED\<close>, \<open>UNSPECIFIED\<close>: the loop
  over the mapped categories leaves out \<open>SF\<close>, \<open>HG\<close> and \<open>TEX CATEGORY\<close>, which are
  appended on their own, but not \<open>UNSPECIFIED\<close>, which is appended on its own as well.
  \<open>pd.Categorical\<close> refuses the repeated entry and \<open>prepare_data\<close> raises.
\<close>

theorem cat_order_repeats_unspecified:
  "build_cat_order
     (mapped_categories_of [rule ''NA'' ''UNSPECIFIED''])
     (unique (map CATEGORY_NORM
        (map (annotate [rule ''NA'' ''UNSPECIFIED''])
             [item ''Laminate'' ''8x4'' None ''B1'' (Num 1)])))
     = [''UNSPECIFIED'', ''UNSPECIFIED'']
   \<and> (case prepare_data (example_workbook [item ''Laminate'' ''8x4'' None ''B1'' (Num 1)]
                            [rule ''NA'' ''UNSPECIFIED'']) of
         Inl e \<Rightarrow> e = ValueError
       | Inr p \<Rightarrow> False)"
  by code_simp

lemma quantity_annotate:
  "QUANTITY (annotate cm r) =
     (case raw_QUANTITY r of
        Null \<Rightarrow> 0
      | Num q \<Rightarrow> q
      | Str s \<Rightarrow> (case py_float s of None \<Rightarrow> 0 | Some q \<Rightarrow> q))"
  by (simp add: annotate_def Let_def fillna_def to_numeric_def split: cell.splits option.splits)

subsection \<open>Decimal text\<close>

lemma digit_char_cases: "d < 10 \<Longrightarrow> d \<in> {0, 1, 2, 3, 4, 5, 6, 7, 8, 9::nat}"
  by auto

lemma digit_val_digit_char: "d < 10 \<Longrightarrow> digit_val (digit_char d) = d"
  using digit_char_cases[of d] by (auto simp: digit_val_def digit_char_def)

lemma is_digit_digit_char: "d < 10 \<Longrightarrow> is_digit (digit_char d)"
  using digit_char_cases[of d] by (auto simp: is_digit_def digit_char_def)

lemma nat_of_digits_snoc: "nat_of_digits (ds @ [c]) = 10 * nat_of_digits ds + digit_val c"
  by (simp add: nat_of_digits_def)

lemma nat_of_digits_str_nat: "nat_of_digits (str_nat n) = n"
proof (induction n rule: str_nat.induct)
  case (1 n)
  show ?case
  proof (cases "n < 10")
    case True
    then show ?thesis
      by (subst str_nat.simps) (simp add: nat_of_digits_def digit_val_digit_char)
  next
    case False
    then have "nat_of_digits (str_nat (n div 10)) = n div 10" using 1 by simp
    then show ?thesis using False
      by (subst str_nat.simps) (simp add: nat_of_digits_snoc digit_val_digit_char)
  qed
qed

lemma digits_str_nat: "list_all is_digit (str_nat n)"
proof (induction n rule: str_nat.induct)
  case (1 n)
  show ?case
  proof (cases "n < 10")
    case True
    then show ?thesis by (subst str_nat.simps) (simp add: is_digit_digit_char)
  next
    case False
    then show ?thesis using 1 by (subst str_nat.simps) (simp add: is_digit_digit_char)
  qed
qed

lemma length_str_nat_pos: "0 < length (str_nat n)"
  by (subst str_nat.simps) simp

lemma length_str_nat_le: "n < 10 ^ Suc j \<Longrightarrow> length (str_nat n) \<le> Suc j"
proof (induction j arbitrary: n)
  case 0
  then show ?case by (subst str_nat.simps) simp
next
  case (Suc j)
  show ?case
  proof (cases "n < 10")
    case True
    then show ?thesis by (subst str_nat.simps) simp
  next
    case False
    have "n div 10 < 10 ^ Suc j" using Suc.prems by (simp add: less_mult_imp_div_less mult.commute)
    then have "length (str_nat (n div 10)) \<le> Suc j" by (rule Suc.IH)
    then show ?thesis using False by (subst str_nat.simps) simp
  qed
qed

lemma length_str_nat_ge: "10 ^ j \<le> n \<Longrightarrow> j < length (str_nat n)"
proof (induction j arbitrary: n)
  case 0
  then show ?case using length_str_nat_pos[of n] by simp
next
  case (Suc j)
  then have "10 ^ j \<le> n div 10" by (simp add: less_eq_div_iff_mult_less_eq mult.commute)
  then have "j < length (str_nat (n div 10))" by (rule Suc.IH)
  moreover have "\<not> n < 10" using Suc.prems
    by (metis One_nat_def le_trans not_less one_le_numeral one_le_power power_Suc mult.right_neutral mult_le_mono2)
  ultimately show ?case by (subst str_nat.simps) simp
qed

lemma nat_of_digits_zeros: "nat_of_digits (replicate j (CHR ''0'') @ s) = nat_of_digits s"
proof -
  have "foldl (\<lambda>a c. 10 * a + digit_val c) 0 (replicate j (CHR ''0'')) = 0"
    by (induction j) (simp_all add: digit_val_def)
  then show ?thesis by (simp add: nat_of_digits_def)
qed

lemma nat_of_digits_zfill: "nat_of_digits (zfill w (str_nat n)) = n"
  by (simp add: zfill_def nat_of_digits_zeros nat_of_digits_str_nat)

lemma digits_zfill: "list_all is_digit (zfill w (str_nat n))"
proof -
  have "list_all is_digit (replicate k (CHR ''0''))" for k
    by (simp add: list_all_iff is_digit_def)
  then show ?thesis by (simp add: zfill_def digits_str_nat)
qed

lemma length_zfill: "length (zfill w s) = max w (length s)"
  by (simp add: zfill_def)

lemma length_zfill2: "n < 100 \<Longrightarrow> length (zfill 2 (str_nat n)) = 2"
  using length_str_nat_le[of n 1] by (simp add: length_zfill)

lemma length_strftime: "dt_month now < 100 \<Longrightarrow> length (strftime_m_y now) = 5"
  by (simp add: strftime_m_y_def length_zfill2)

subsection \<open>Order-id sequencer\<close>

lemma generate_unique_order_id_Some:
  "generate_unique_order_id (Some table) now =
     (Some (table(strftime_m_y now \<mapsto> (case table (strftime_m_y now) of None \<Rightarrow> 0 | Some c \<Rightarrow> c) + 1)),
      strftime_m_y now @ ''-'' @ zfill 5 (str_nat ((case table (strftime_m_y now) of None \<Rightarrow> 0 | Some c \<Rightarrow> c) + 1)))"
  by (simp add: generate_unique_order_id_def Let_def split: option.splits)

lemma issue_ids_same_key:
  assumes "list_all (\<lambda>now. strftime_m_y now = k) calls"
  shows "issue_ids (Some table) calls =
           (Some (if calls = [] then table
                  else table(k \<mapsto> (case table k of None \<Rightarrow> 0 | Some c \<Rightarrow> c) + length calls)),
            map (\<lambda>i. k @ ''-'' @ zfill 5 (str_nat ((case table k of None \<Rightarrow> 0 | Some c \<Rightarrow> c) + Suc i)))
              [0..<length calls])"
  using assms
proof (induction calls arbitrary: table)
  case Nil
  then show ?case by simp
next
  case (Cons now later)
  let ?b = "case table k of None \<Rightarrow> 0 | Some c \<Rightarrow> c"
  define t1 where "t1 = table(k \<mapsto> ?b + 1)"
  have t1k: "(case t1 k of None \<Rightarrow> 0 | Some c \<Rightarrow> c) = ?b + 1"
    by (simp add: t1_def)
  have k: "strftime_m_y now = k" and rest: "list_all (\<lambda>now. strftime_m_y now = k) later"
    using Cons.prems by simp_all
  have step: "generate_unique_order_id (Some table) now =
                (Some t1, k @ ''-'' @ zfill 5 (str_nat (?b + 1)))"
    using k by (simp add: generate_unique_order_id_Some t1_def)
  have ih: "issue_ids (Some t1) later =
           (Some (if later = [] then t1 else t1(k \<mapsto> (?b + 1) + length later)),
            map (\<lambda>i. k @ ''-'' @ zfill 5 (str_nat ((?b + 1) + Suc i))) [0..<length later])"
    using Cons.IH[OF rest, of t1] unfolding t1k .
  have store: "(if later = [] then t1 else t1(k \<mapsto> (?b + 1) + length later))
                 = table(k \<mapsto> ?b + length (now # later))"
    by (simp add: t1_def)
  have ids: "map (\<lambda>i. k @ ''-'' @ zfill 5 (str_nat (?b + Suc i))) [0..<length (now # later)]
        = (k @ ''-'' @ zfill 5 (str_nat (?b + 1)))
          # map (\<lambda>i. k @ ''-'' @ zfill 5 (str_nat ((?b + 1) + Suc i))) [0..<length later]"
    by (simp add: map_upt_Suc del: upt_Suc)
  have "issue_ids (Some table) (now # later) =
          (Some (table(k \<mapsto> ?b + length (now # later))),
           (k @ ''-'' @ zfill 5 (str_nat (?b + 1)))
           # map (\<lambda>i. k @ ''-'' @ zfill 5 (str_nat ((?b + 1) + Suc i))) [0..<length later])"
    by (simp add: step ih store)
  then show ?case unfolding ids by (simp add: fun_upd_def)
qed

lemma id_parts:
  assumes "length k = 5"
  shows "id_prefix (k @ ''-'' @ s) = k" "id_suffix (k @ ''-'' @ s) = s" "(k @ ''-'' @ s) ! 5 = CHR ''-''"
  using assms by (simp_all add: id_prefix_def id_suffix_def nth_append)

lemma str_nat_1: "zfill 5 (str_nat 1) = ''00001''"
  by (simp add: zfill_def str_nat.simps digit_char_def eval_nat_numeral)

lemma order_ids_facts:
  assumes same: "list_all (\<lambda>now. strftime_m_y now = k \<and> 1 \<le> dt_month now \<and> dt_month now \<le> 12) calls"
    and ids: "ids = snd (issue_ids (Some table) calls)"
    and base: "base = (case table k of None \<Rightarrow> 0 | Some c \<Rightarrow> c)"
  shows "map id_prefix ids = replicate (length calls) k"
    and "list_all (\<lambda>oid. oid ! 5 = CHR ''-'' \<and> list_all is_digit (id_suffix oid)
                          \<and> 5 \<le> length (id_suffix oid)) ids"
    and "base + length calls < 100000 \<longrightarrow> list_all (\<lambda>oid. length oid = 11) ids"
    and "map id_number ids = map (\<lambda>i. base + Suc i) [0..<length calls]"
    and "table k = None \<longrightarrow> map id_number ids = [1..<Suc (length calls)]"
    and "sorted_wrt (<) (map id_number ids)"
    and "strftime_m_y later \<noteq> k \<and> table (strftime_m_y later) = None \<longrightarrow>
           snd (generate_unique_order_id (fst (issue_ids (Some table) calls)) later)
             = strftime_m_y later @ ''-00001''"
proof -
  have keys: "list_all (\<lambda>now. strftime_m_y now = k) calls"
    using same by (simp add: list_all_iff)
  have len: "calls \<noteq> [] \<Longrightarrow> length k = 5"
  proof -
    assume "calls \<noteq> []"
    then obtain now where "now \<in> set calls" by (cases calls) auto
    then have "strftime_m_y now = k" "dt_month now < 100"
      using same by (auto simp: list_all_iff)
    then show ?thesis using length_strftime by blast
  qed
  have run: "issue_ids (Some table) calls =
           (Some (if calls = [] then table else table(k \<mapsto> base + length calls)),
            map (\<lambda>i. k @ ''-'' @ zfill 5 (str_nat (base + Suc i))) [0..<length calls])"
    using issue_ids_same_key[OF keys, of table] base by simp
  then have ids': "ids = map (\<lambda>i. k @ ''-'' @ zfill 5 (str_nat (base + Suc i))) [0..<length calls]"
    using ids by simp
  show "map id_prefix ids = replicate (length calls) k"
  proof (cases "calls = []")
    case True
    then show ?thesis using ids' by simp
  next
    case False
    then show ?thesis using ids' id_parts(1)[OF len[OF False]]
      by (simp add: comp_def map_replicate_const)
  qed
  show "list_all (\<lambda>oid. oid ! 5 = CHR ''-'' \<and> list_all is_digit (id_suffix oid)
                          \<and> 5 \<le> length (id_suffix oid)) ids"
  proof (cases "calls = []")
    case True
    then show ?thesis using ids' by simp
  next
    case False
    have dz: "c \<in> set (zfill w (str_nat n)) \<Longrightarrow> is_digit c" for c w n
      using digits_zfill[of w n] by (simp add: list_all_iff)
    show ?thesis using ids' id_parts[OF len[OF False]]
      by (auto simp: list_all_iff length_zfill dz)
  qed
  show "base + length calls < 100000 \<longrightarrow> list_all (\<lambda>oid. length oid = 11) ids"
  proof (cases "calls = []")
    case True
    then show ?thesis using ids' by simp
  next
    case False
    have "length (zfill 5 (str_nat n)) = 5" if "n < 100000" for n
      using that length_str_nat_le[of n 4] by (simp add: zfill_def)
    then show ?thesis using ids' len[OF False]
      by (auto simp: list_all_iff)
  qed
  show num: "map id_number ids = map (\<lambda>i. base + Suc i) [0..<length calls]"
  proof (cases "calls = []")
    case True
    then show ?thesis using ids' by simp
  next
    case False
    then show ?thesis using ids' id_parts(2)[OF len[OF False]]
      by (simp add: id_number_def nat_of_digits_zfill)
  qed
  show "table k = None \<longrightarrow> map id_number ids = [1..<Suc (length calls)]"
  proof
    assume "table k = None"
    then have "base = 0" using base by simp
    then have "map id_number ids = map Suc [0..<length calls]" using num by simp
    then show "map id_number ids = [1..<Suc (length calls)]"
      by (simp add: map_Suc_upt del: upt_Suc)
  qed
  show "sorted_wrt (<) (map id_number ids)"
    unfolding num by (simp add: sorted_wrt_map sorted_wrt_upt del: upt_Suc)
  show "strftime_m_y later \<noteq> k \<and> table (strftime_m_y later) = None \<longrightarrow>
           snd (generate_unique_order_id (fst (issue_ids (Some table) calls)) later)
             = strftime_m_y later @ ''-00001''"
    using run str_nat_1 by (simp add: generate_unique_order_id_Some)
qed

text \<open>
  The month key can be read back: for a month below 100 its first two characters spell
  the month and its last two the year of the century, so two times have the same key
  exactly when they agree on both.
\<close>

lemma strftime_reads_back:
  assumes "dt_month now < 100"
  shows "nat_of_digits (take 2 (strftime_m_y now)) = dt_month now"
    and "nat_of_digits (drop 3 (strftime_m_y now)) = dt_year now mod 100"
    and "strftime_m_y now ! 2 = CHR ''-''"
  using length_zfill2[OF assms]
  by (simp_all add: strftime_m_y_def nat_of_digits_zfill nth_append)

lemma strftime_m_y_eq_iff:
  assumes "dt_month a < 100" "dt_month b < 100"
  shows "strftime_m_y a = strftime_m_y b
           \<longleftrightarrow> dt_month a = dt_month b \<and> dt_year a mod 100 = dt_year b mod 100"
proof
  assume "strftime_m_y a = strftime_m_y b"
  then show "dt_month a = dt_month b \<and> dt_year a mod 100 = dt_year b mod 100"
    using strftime_reads_back(1,2)[OF assms(1)] strftime_reads_back(1,2)[OF assms(2)] by simp
next
  assume "dt_month a = dt_month b \<and> dt_year a mod 100 = dt_year b mod 100"
  then show "strftime_m_y a = strftime_m_y b" by (simp add: strftime_m_y_def)
qed

text \<open>
  Claim C4 fails on the code at the width of the number. The docstring of
  \<open>generate_unique_order_id\<close> gives the format \<open>MM-YY-NNNNN\<close>, and \<open>zfill(5)\<close> fills
  up to five digits but cuts nothing: after 99999 identifiers issued in November 2026
  from an empty store, the store holds 99999 for \<open>11-26\<close> and the next call returns
  \<open>11-26-100000\<close>, whose number has six digits. (The other parts of the claim hold:
  see \<open>order_ids_facts\<close> and \<open>strftime_m_y_eq_iff\<close>.)
\<close>

theorem order_id_width_overflow:
  "fst (issue_ids (Some Map.empty) (replicate 99999 \<lparr>dt_year = 2026, dt_month = 11\<rparr>))
     = Some [''11-26'' \<mapsto> 99999]
   \<and> snd (generate_unique_order_id (Some [''11-26'' \<mapsto> 99999])
            \<lparr>dt_year = 2026, dt_month = 11\<rparr>) = ''11-26-100000''
   \<and> length (id_suffix ''11-26-100000'') = 6"
proof -
  let ?nov = "\<lparr>dt_year = 2026, dt_month = 11\<rparr>"
  have nov: "strftime_m_y ?nov = ''11-26''"
    by (simp add: strftime_m_y_def zfill_def str_nat.simps digit_char_def)
  have "list_all (\<lambda>now. strftime_m_y now = ''11-26'') (replicate 99999 ?nov)"
    using nov by (simp add: list_all_iff)
  from issue_ids_same_key[OF this, of Map.empty]
  have 1: "fst (issue_ids (Some Map.empty) (replicate 99999 ?nov)) = Some [''11-26'' \<mapsto> 99999]"
    by simp
  have 2: "snd (generate_unique_order_id (Some [''11-26'' \<mapsto> 99999]) ?nov) = ''11-26-100000''"
    by (simp add: generate_unique_order_id_def strftime_m_y_def zfill_def str_nat.simps
        digit_char_def Let_def)
  have 3: "length (id_suffix ''11-26-100000'') = 6" by (simp add: id_suffix_def)
  show ?thesis using 1 2 3 by blast
qed

subsection \<open>Missing and malformed sheets\<close>

lemma read_excel_all_absent:
  assumes "Master wb = None \<or> CategoryMap wb = None \<or> WeightMap wb = None
         \<or> HDMRWeightMap wb = None \<or> MDFWeightMap wb = None \<or> PlyWeightMap wb = None
         \<or> PVCWeightMap wb = None \<or> WPCBoardWeightMap wb = None"
  shows "read_excel_all wb = fallback_tables"
  using assms by (auto simp: read_excel_all_def split: option.splits)

lemma read_excel_all_present:
  assumes "Master wb = Some d" "CategoryMap wb = Some c" "WeightMap wb = Some w"
    "HDMRWeightMap wb = Some h" "MDFWeightMap wb = Some m" "PlyWeightMap wb = Some p"
    "PVCWeightMap wb = Some v" "WPCBoardWeightMap wb = Some b"
  shows "read_excel_all wb =
           \<lparr>master_df = d, cat_map_df = c, weight_map_df = w, hdmr_map_df = h,
            mdf_map_df = m, ply_map_df = p, pvc_map_df = v, wpc_map_df = b\<rparr>"
  using assms by (simp add: read_excel_all_def)

lemma annotate_fallback:
  "annotate [\<lparr>MATCH_KEYWORD = ''*'', NORMALIZED_CATEGORY = ''Default''\<rparr>]
     \<lparr>raw_PRODUCT = Some ''Laminate'', raw_SIZE = Some ''72x48'', raw_CATEGORY = Some ''SF'',
      raw_BRAND = Some ''Test'', raw_QUANTITY = Num 10\<rparr>
   = \<lparr>PRODUCT = ''Laminate'', SIZE = ''72x48'', CATEGORY = ''SF'', BRAND = ''Test'',
      QUANTITY = 10, CATEGORY_NORM = ''Default'', SQFT = 240\<rparr>"
  by code_simp

lemma cat_order_fallback:
  "build_cat_order (mapped_categories_of [\<lparr>MATCH_KEYWORD = ''*'', NORMALIZED_CATEGORY = ''Default''\<rparr>])
     [''Default''] = [''Default'']"
  by code_simp

lemma prepare_data_fallback:
  assumes "read_excel_all wb = fallback_tables"
  shows "prepare_data wb =
     Inr \<lparr>df = [\<lparr>PRODUCT = ''Laminate'', SIZE = ''72x48'', CATEGORY = ''SF'', BRAND = ''Test'',
                  QUANTITY = 10, CATEGORY_NORM = ''Default'', SQFT = 240\<rparr>],
          cat_order = [''Default''],
          weight_map = Map.empty, hdmr_map = Map.empty, mdf_map = Map.empty,
          ply_map = Map.empty, pvc_map = Map.empty, wpc_map = Map.empty\<rparr>"
  unfolding prepare_data_def assms
  by (simp add: fallback_tables_def Let_def annotate_fallback cat_order_fallback
      weight_dict_def thickness_dict_def dict_of_def)




lemma prepared_rows:
  assumes "prepare_data wb = Inr p"
    and "master_df (read_excel_all wb) = Frame rows"
    and "cat_map_df (read_excel_all wb) = Frame cm"
  shows "mset (df p) = mset (map (annotate cm) rows)"
proof -
  from assms(1) obtain rows' cm' where
    "master_df (read_excel_all wb) = Frame rows'" "cat_map_df (read_excel_all wb) = Frame cm'"
    "df p = sort_key (row_sort_key (cat_order p)) (map (annotate cm') rows')"
    by (elim prepare_data_Inr)
  then show ?thesis using assms(2,3) by simp
qed

text \<open>
  With all eight sheets read, the frames are the sheets themselves, and the rows
  returned are the \<open>Master\<close> rows, each annotated on its own, in sorted order.
\<close>

lemma prepared_rows_pinned:
  assumes "Master wb = Some (Frame rows)" "CategoryMap wb = Some (Frame cm)"
    "WeightMap wb = Some w" "HDMRWeightMap wb = Some h" "MDFWeightMap wb = Some md"
    "PlyWeightMap wb = Some pl" "PVCWeightMap wb = Some pv" "WPCBoardWeightMap wb = Some wp"
    and "prepare_data wb = Inr p"
  shows "mset (df p) = mset (map (annotate cm) rows)"
    and "weight_map p = weight_dict w" and "hdmr_map p = thickness_dict h"
    and "mdf_map p = thickness_dict md" and "ply_map p = thickness_dict pl"
    and "pvc_map p = thickness_dict pv" and "wpc_map p = thickness_dict wp"
proof -
  have t: "read_excel_all wb =
           \<lparr>master_df = Frame rows, cat_map_df = Frame cm, weight_map_df = w, hdmr_map_df = h,
            mdf_map_df = md, ply_map_df = pl, pvc_map_df = pv, wpc_map_df = wp\<rparr>"
    using assms(1-8) by (rule read_excel_all_present)
  show "mset (df p) = mset (map (annotate cm) rows)"
    using prepared_rows[OF assms(9)] t by simp
  from assms(9) show "weight_map p = weight_dict w" "hdmr_map p = thickness_dict h"
    "mdf_map p = thickness_dict md" "ply_map p = thickness_dict pl"
    "pvc_map p = thickness_dict pv" "wpc_map p = thickness_dict wp"
    by (elim prepare_data_Inr, simp add: t)+
qed


lemma annotate_fields:
  "PRODUCT (annotate cm r) = strip (py_str (raw_PRODUCT r))"
  "SIZE (annotate cm r) = strip (py_str (raw_SIZE r))"
  "CATEGORY (annotate cm r) = strip (py_str (raw_CATEGORY r))"
  "BRAND (annotate cm r) = strip (py_str (raw_BRAND r))"
  by (simp_all add: annotate_def Let_def)

text \<open>
  Claim C6, as amended. When all eight sheets of the workbook are read, the rows
  \<open>prepare_data\<close> returns are the \<open>Master\<close> rows, one for one: each input row comes back
  with its own product, size, category and brand (as stripped text) and with its own
  quantity coerced to a number. A number is kept as it is, whatever its sign; a text
  is replaced by the number it spells, or by 0 when it spells none; an empty cell
  becomes 0. Nothing makes a negative quantity non-negative.
\<close>

theorem prepared_quantity:
  assumes "Master wb = Some (Frame rows)" "CategoryMap wb = Some (Frame cm)"
    "WeightMap wb = Some w" "HDMRWeightMap wb = Some h" "MDFWeightMap wb = Some md"
    "PlyWeightMap wb = Some pl" "PVCWeightMap wb = Some pv" "WPCBoardWeightMap wb = Some wp"
    and "prepare_data wb = Inr p"
  shows "mset (df p) = mset (map (annotate cm) rows)
       \<and> (\<forall>r. PRODUCT (annotate cm r) = strip (py_str (raw_PRODUCT r))
             \<and> SIZE (annotate cm r) = strip (py_str (raw_SIZE r))
             \<and> CATEGORY (annotate cm r) = strip (py_str (raw_CATEGORY r))
             \<and> BRAND (annotate cm r) = strip (py_str (raw_BRAND r))
             \<and> QUANTITY (annotate cm r) =
                 (case raw_QUANTITY r of
                    Null \<Rightarrow> 0
                  | Num q \<Rightarrow> q
                  | Str s \<Rightarrow> (case py_float s of None \<Rightarrow> 0 | Some q \<Rightarrow> q)))"
  using prepared_rows_pinned(1)[OF assms] annotate_fields quantity_annotate by simp

theorem prepared_quantity_witness:
  "case prepare_data (example_workbook
          [item ''Door'' ''8x4'' (Some ''SF'') ''B1'' (Num (-5)),
           item ''Door'' ''8x4'' (Some ''SF'') ''B2'' (Str ''abc''),
           item ''Door'' ''8x4'' (Some ''SF'') ''B3'' Null,
           item ''Door'' ''8x4'' (Some ''SF'') ''B4'' (Str ''12'')] []) of
     Inl e \<Rightarrow> False
   | Inr p \<Rightarrow> mset (map (\<lambda>r. (BRAND r, QUANTITY r)) (df p))
              = {#(''B1'', - 5), (''B2'', 0), (''B3'', 0), (''B4'', 12)#}"
proof -
  let ?rows = "[item ''Door'' ''8x4'' (Some ''SF'') ''B1'' (Num (-5)),
           item ''Door'' ''8x4'' (Some ''SF'') ''B2'' (Str ''abc''),
           item ''Door'' ''8x4'' (Some ''SF'') ''B3'' Null,
           item ''Door'' ''8x4'' (Some ''SF'') ''B4'' (Str ''12'')]"
  let ?wb = "example_workbook ?rows []"
  have "\<not> isl (prepare_data ?wb)" by code_simp
  then obtain p where p: "prepare_data ?wb = Inr p"
    using prepare_data_returns by blast
  have sheets: "Master ?wb = Some (Frame ?rows)" "CategoryMap ?wb = Some (Frame [])"
    "WeightMap ?wb = Some (Frame [])" "HDMRWeightMap ?wb = Some (Frame [])"
    "MDFWeightMap ?wb = Some (Frame [])" "PlyWeightMap ?wb = Some (Frame [])"
    "PVCWeightMap ?wb = Some (Frame [])" "WPCBoardWeightMap ?wb = Some (Frame [])"
    by (simp_all add: example_workbook_def)
  have ann: "map (\<lambda>r. (BRAND r, QUANTITY r)) (map (annotate []) ?rows)
               = [(''B1'', - 5), (''B2'', 0), (''B3'', 0), (''B4'', 12)]"
    by code_simp
  from prepared_quantity[OF sheets p]
  have "mset (df p) = mset (map (annotate []) ?rows)" by blast
  then have "mset (map (\<lambda>r. (BRAND r, QUANTITY r)) (df p))
               = mset (map (\<lambda>r. (BRAND r, QUANTITY r)) (map (annotate []) ?rows))"
    by (metis mset_map)
  then show ?thesis using p ann by simp
qed

text \<open>
  The claim as first stated fails: a negative quantity in the sheet is the quantity of
  the returned row. And the rows are the input rows only when every sheet is read:
  with the \<open>WeightMap\<close> sheet missing, an item of quantity 7 comes back as the built-in
  row of quantity 10.
\<close>

theorem negative_quantity_counterexample:
  "(case prepare_data (example_workbook [item ''Door'' ''8x4'' (Some ''SF'') ''B1'' (Num (-5))] []) of
      Inl e \<Rightarrow> False
    | Inr p \<Rightarrow> map QUANTITY (df p) = [- 5] \<and> \<not> 0 \<le> QUANTITY (hd (df p)))
   \<and> (case prepare_data ((example_workbook [item ''Door'' ''8x4'' (Some ''SF'') ''B1'' (Num 7)] [])
                           \<lparr>WeightMap := None\<rparr>) of
        Inl e \<Rightarrow> False
      | Inr p \<Rightarrow> map QUANTITY (df p) = [10])"
  by code_simp




text \<open>
  Claim C9, as amended. When the \<open>Master\<close> sheet cannot be read, \<open>prepare_data\<close> does not
  fail: it returns the built-in row with the category order \<open>Default\<close> and six empty
  weight maps, as for any other sheet that cannot be read. So an unreadable primary
  table is not a condition under which the load raises, and every failure of
  \<open>prepare_data\<close> happens on a workbook whose eight sheets were all read.
\<close>

theorem unreadable_master_falls_back:
  "(Master wb = None \<longrightarrow>
      prepare_data wb =
        Inr \<lparr>df = [\<lparr>PRODUCT = ''Laminate'', SIZE = ''72x48'', CATEGORY = ''SF'', BRAND = ''Test'',
                     QUANTITY = 10, CATEGORY_NORM = ''Default'', SQFT = 240\<rparr>],
             cat_order = [''Default''],
             weight_map = Map.empty, hdmr_map = Map.empty, mdf_map = Map.empty,
             ply_map = Map.empty, pvc_map = Map.empty, wpc_map = Map.empty\<rparr>)
   \<and> (prepare_data wb = Inl e \<longrightarrow>
        Master wb \<noteq> None \<and> CategoryMap wb \<noteq> None \<and> WeightMap wb \<noteq> None
        \<and> HDMRWeightMap wb \<noteq> None \<and> MDFWeightMap wb \<noteq> None \<and> PlyWeightMap wb \<noteq> None
        \<and> PVCWeightMap wb \<noteq> None \<and> WPCBoardWeightMap wb \<noteq> None)"
proof (intro conjI impI)
  assume "Master wb = None"
  then have "read_excel_all wb = fallback_tables" by (intro read_excel_all_absent) blast
  then show "prepare_data wb =
        Inr \<lparr>df = [\<lparr>PRODUCT = ''Laminate'', SIZE = ''72x48'', CATEGORY = ''SF'', BRAND = ''Test'',
                     QUANTITY = 10, CATEGORY_NORM = ''Default'', SQFT = 240\<rparr>],
             cat_order = [''Default''],
             weight_map = Map.empty, hdmr_map = Map.empty, mdf_map = Map.empty,
             ply_map = Map.empty, pvc_map = Map.empty, wpc_map = Map.empty\<rparr>"
    by (rule prepare_data_fallback)
next
  assume e: "prepare_data wb = Inl e"
  have "\<not> (Master wb = None \<or> CategoryMap wb = None \<or> WeightMap wb = None
         \<or> HDMRWeightMap wb = None \<or> MDFWeightMap wb = None \<or> PlyWeightMap wb = None
         \<or> PVCWeightMap wb = None \<or> WPCBoardWeightMap wb = None)"
  proof
    assume "Master wb = None \<or> CategoryMap wb = None \<or> WeightMap wb = None
         \<or> HDMRWeightMap wb = None \<or> MDFWeightMap wb = None \<or> PlyWeightMap wb = None
         \<or> PVCWeightMap wb = None \<or> WPCBoardWeightMap wb = None"
    then have "read_excel_all wb = fallback_tables" by (rule read_excel_all_absent)
    then show False using prepare_data_fallback[of wb] e by simp
  qed
  then show "Master wb \<noteq> None" "CategoryMap wb \<noteq> None" "WeightMap wb \<noteq> None"
    "HDMRWeightMap wb \<noteq> None" "MDFWeightMap wb \<noteq> None" "PlyWeightMap wb \<noteq> None"
    "PVCWeightMap wb \<noteq> None" "WPCBoardWeightMap wb \<noteq> None"
    by simp_all
qed

theorem unreadable_master_falls_back_witness:
  "case prepare_data ((example_workbook [item ''Door'' ''8x4'' (Some ''SF'') ''B1'' (Num 2)] [])
                        \<lparr>Master := None\<rparr>) of
     Inl e \<Rightarrow> False
   | Inr p \<Rightarrow> map PRODUCT (df p) = [''Laminate''] \<and> map QUANTITY (df p) = [10]
            \<and> cat_order p = [''Default'']"
proof -
  let ?wb = "(example_workbook [item ''Door'' ''8x4'' (Some ''SF'') ''B1'' (Num 2)] [])
               \<lparr>Master := None\<rparr>"
  have "Master ?wb = None" by simp
  with unreadable_master_falls_back[where wb = ?wb] show ?thesis by simp
qed

text \<open>
  The claim as first stated fails in both of its parts: a workbook with no readable
  sheet at all gives a result, and a workbook with a readable \<open>Master\<close> sheet and a
  category map without its columns makes the load raise.
\<close>

theorem unreadable_document_counterexample:
  "(case prepare_data \<lparr>Master = None, CategoryMap = None, WeightMap = None,
                       HDMRWeightMap = None, MDFWeightMap = None, PlyWeightMap = None,
                       PVCWeightMap = None, WPCBoardWeightMap = None\<rparr> of
      Inl e \<Rightarrow> False
    | Inr p \<Rightarrow> map PRODUCT (df p) = [''Laminate''])
   \<and> (case prepare_data ((example_workbook [item ''Door'' ''8x4'' (Some ''SF'') ''B1'' (Num 2)] [])
                           \<lparr>CategoryMap := Some BadColumns\<rparr>) of
        Inl e \<Rightarrow> e = KeyError
      | Inr p \<Rightarrow> False)"
  by code_simp

subsection \<open>Report writer\<close>

text \<open>Every data row of the worksheet is written from a row of the frame.\<close>

lemma groupby_subset: "(k, g) \<in> set (groupby key xs) \<Longrightarrow> set g \<subseteq> set xs"
  by (induction key xs rule: groupby.induct) auto

lemma category_groups_Cons:
  "\<exists>sub cur2. fst (write_category_groups mk ((name, grp) # rest) cur) =
      map (\<lambda>(i, row). (cur + i, DataRow (mk row (cur + i)))) (enumerate 0 grp)
      @ sub @ fst (write_category_groups mk rest cur2)
    \<and> (\<forall>x\<in>set sub. \<forall>c. snd x \<noteq> DataRow c)"
proof (cases "grp = []")
  case True
  then show ?thesis
    by (intro exI[of _ "[]"] exI[of _ cur]) (simp add: Let_def split: prod.splits)
next
  case False
  let ?r = "(cur, cur + length grp - 1)"
  let ?sub = "[(cur + length grp, CategoryTotal name
                              (''=SUM('' @ col_range (CHR ''E'') ?r @ '')'')
                              (''=SUM('' @ col_range (CHR ''F'') ?r @ '')'')
                              (''=SUM('' @ col_range (CHR ''G'') ?r @ '')'')),
               (cur + length grp + 1, BlankRow)]"
  show ?thesis using False
    by (intro exI[of _ ?sub] exI[of _ "cur + length grp + 2"]) (simp add: Let_def split: prod.splits)
qed

lemma category_groups_data:
  assumes "(n, DataRow c) \<in> set (fst (write_category_groups mk groups cur))"
  shows "\<exists>g \<in> set groups. \<exists>row \<in> set (snd g). c = mk row n"
  using assms
proof (induction groups arbitrary: cur)
  case Nil
  then show ?case by simp
next
  case (Cons g rest)
  obtain name grp where g: "g = (name, grp)" by (cases g)
  obtain sub cur2 where
    eq: "fst (write_category_groups mk ((name, grp) # rest) cur) =
      map (\<lambda>(i, row). (cur + i, DataRow (mk row (cur + i)))) (enumerate 0 grp)
      @ sub @ fst (write_category_groups mk rest cur2)"
    and sub: "\<forall>x\<in>set sub. \<forall>c. snd x \<noteq> DataRow c"
    using category_groups_Cons by blast
  from Cons.prems have
    "(n, DataRow c) \<in> set (map (\<lambda>(i, row). (cur + i, DataRow (mk row (cur + i)))) (enumerate 0 grp))
     \<or> (n, DataRow c) \<in> set (fst (write_category_groups mk rest cur2))"
    unfolding g eq using sub by auto
  then show ?case
  proof
    assume "(n, DataRow c) \<in> set (map (\<lambda>(i, row). (cur + i, DataRow (mk row (cur + i)))) (enumerate 0 grp))"
    then obtain i row where "(i, row) \<in> set (enumerate 0 grp)" "n = cur + i" "c = mk row (cur + i)"
      by auto
    then have "row \<in> set grp" "c = mk row n" by (auto simp: in_set_enumerate_eq)
    then show ?thesis unfolding g by auto
  next
    assume "(n, DataRow c) \<in> set (fst (write_category_groups mk rest cur2))"
    from Cons.IH[OF this] show ?thesis by auto
  qed
qed

lemma brand_groups_Cons:
  "\<exists>total cur2. fst (write_brand_groups mk ((brand_name, brand_group) # rest) cur) =
      fst (write_category_groups mk (groupby CATEGORY_NORM brand_group) cur)
      @ total @ fst (write_brand_groups mk rest cur2)
    \<and> (\<forall>x\<in>set total. \<forall>c. snd x \<noteq> DataRow c)"
proof -
  obtain out1 row1 ranges where
    c: "write_category_groups mk (groupby CATEGORY_NORM brand_group) cur = (out1, row1, ranges)"
    by (cases "write_category_groups mk (groupby CATEGORY_NORM brand_group) cur") auto
  show ?thesis
  proof (cases "brand_group = []")
    case True
    then show ?thesis using c
      by (intro exI[of _ "[]"] exI[of _ row1]) (simp add: Let_def split: prod.splits)
  next
    case False
    let ?total = "[(row1, BrandTotal (''BRAND TOTAL: '' @ brand_name)
                             (sum_of_ranges (CHR ''E'') ranges)
                             (sum_of_ranges (CHR ''F'') ranges)
                             (sum_of_ranges (CHR ''G'') ranges)),
                    (row1 + 1, BlankRow)]"
    show ?thesis using False c
      by (intro exI[of _ ?total] exI[of _ "row1 + 2"]) (simp add: Let_def split: prod.splits)
  qed
qed

lemma brand_groups_data:
  assumes "(n, DataRow c) \<in> set (fst (write_brand_groups mk groups cur))"
  shows "\<exists>g \<in> set groups. \<exists>row \<in> set (snd g). c = mk row n"
  using assms
proof (induction groups arbitrary: cur)
  case Nil
  then show ?case by simp
next
  case (Cons g rest)
  obtain name grp where g: "g = (name, grp)" by (cases g)
  obtain total cur2 where
    eq: "fst (write_brand_groups mk ((name, grp) # rest) cur) =
      fst (write_category_groups mk (groupby CATEGORY_NORM grp) cur)
      @ total @ fst (write_brand_groups mk rest cur2)"
    and tot: "\<forall>x\<in>set total. \<forall>c. snd x \<noteq> DataRow c"
    using brand_groups_Cons by blast
  from Cons.prems have
    "(n, DataRow c) \<in> set (fst (write_category_groups mk (groupby CATEGORY_NORM grp) cur))
     \<or> (n, DataRow c) \<in> set (fst (write_brand_groups mk rest cur2))"
    unfolding g eq using tot by auto
  then show ?case
  proof
    assume "(n, DataRow c) \<in> set (fst (write_category_groups mk (groupby CATEGORY_NORM grp) cur))"
    then obtain cg row where "cg \<in> set (groupby CATEGORY_NORM grp)" "row \<in> set (snd cg)" "c = mk row n"
      using category_groups_data by blast
    then have "row \<in> set grp" using groupby_subset[of "fst cg" "snd cg" CATEGORY_NORM grp] by auto
    then show ?thesis using \<open>c = mk row n\<close> unfolding g by auto
  next
    assume "(n, DataRow c) \<in> set (fst (write_brand_groups mk rest cur2))"
    from Cons.IH[OF this] show ?thesis by auto
  qed
qed

lemma report_data_rows:
  assumes "(n, DataRow c) \<in> set (snd (write_report fmt db now p dealer_name city order_date freight_condition))"
  shows "\<exists>row \<in> set (df p). c = write_data_row fmt p row n"
proof -
  from assms have "(n, DataRow c) \<in> set (fst (write_brand_groups (write_data_row fmt p) (groupby BRAND (df p)) 11))"
    by (auto simp: write_report_def Let_def split: prod.splits)
  then obtain g row where "g \<in> set (groupby BRAND (df p))" "row \<in> set (snd g)" "c = write_data_row fmt p row n"
    using brand_groups_data by blast
  moreover have "set (snd g) \<subseteq> set (df p)" using groupby_subset[of "fst g" "snd g" BRAND "df p"] calculation(1) by simp
  ultimately show ?thesis by auto
qed

lemma py_int_truncates:
  "(0 \<le> q \<longrightarrow> of_int (py_int q) \<le> q \<and> q < of_int (py_int q) + 1)
   \<and> (q < 0 \<longrightarrow> q \<le> of_int (py_int q) \<and> of_int (py_int q) - 1 < q)"
  by (auto simp: py_int_def) linarith+

lemma prepared_sqft:
  assumes "prepare_data wb = Inr p" and "row \<in> set (df p)"
  shows "SQFT row = calculate_sqft (Str (SIZE row)) (QUANTITY row)"
proof -
  from assms(1) obtain rows cm where
    "df p = sort_key (row_sort_key (cat_order p)) (map (annotate cm) rows)"
    by (elim prepare_data_Inr)
  then obtain r where "row = annotate cm r" using assms(2) by auto
  then show ?thesis by (simp add: annotate_def Let_def)
qed

text \<open>
  Claim C10. Every data row of the report is written from a row of the prepared frame,
  and its quantity cell (column E) is \<open>int(float(q))\<close> of that row's coerced quantity
  \<open>q\<close>: the quantity cut towards zero, the floor of a non-negative and the ceiling of a
  negative one. The area that \<open>prepare_data\<close> attached to the row was computed from \<open>q\<close>
  itself, not from the cut value.
\<close>

theorem quantity_cell_truncated:
  assumes "prepare_data wb = Inr p"
    and "(n, DataRow c) \<in> set (snd (write_report fmt db now p dealer_name city order_date freight_condition))"
  shows "\<exists>row \<in> set (df p).
           c = write_data_row fmt p row n
         \<and> cell_E c = py_int (QUANTITY row)
         \<and> (if 0 \<le> QUANTITY row then cell_E c = \<lfloor>QUANTITY row\<rfloor> else cell_E c = \<lceil>QUANTITY row\<rceil>)
         \<and> SQFT row = calculate_sqft (Str (SIZE row)) (QUANTITY row)"
proof -
  from report_data_rows[OF assms(2)] obtain row where
    row: "row \<in> set (df p)" "c = write_data_row fmt p row n" by blast
  then have "cell_E c = py_int (QUANTITY row)" by (simp add: write_data_row_def)
  then show ?thesis using row prepared_sqft[OF assms(1) row(1)]
    by (auto simp: py_int_def)
qed

theorem quantity_cell_truncated_witness:
  "case prepare_data (example_workbook
          [item ''Laminate'' ''8x4'' (Some ''SF'') ''B1'' (Num (5 / 2))] []) of
     Inl e \<Rightarrow> False
   | Inr p \<Rightarrow>
       (\<exists>row \<in> set (df p).
           QUANTITY row = 5 / 2 \<and> SQFT row = 80
         \<and> (11, DataRow \<lparr>cell_A = ''Laminate'', cell_B = ''8x4'', cell_C = ''SF'',
                         cell_D = ''B1'', cell_E = 2, cell_F = ''0'', cell_G = ''0''\<rparr>)
             \<in> set (snd (write_report (\<lambda>q. []) None \<lparr>dt_year = 2026, dt_month = 11\<rparr> p [] [] [] []))
         \<and> 2 = py_int (QUANTITY row))"
proof -
  let ?wb = "example_workbook [item ''Laminate'' ''8x4'' (Some ''SF'') ''B1'' (Num (5 / 2))] []"
  let ?c = "\<lparr>cell_A = ''Laminate'', cell_B = ''8x4'', cell_C = ''SF'',
            cell_D = ''B1'', cell_E = 2, cell_F = ''0'', cell_G = ''0''\<rparr>"
  have "\<not> isl (prepare_data ?wb)" by code_simp
  then obtain p where p: "prepare_data ?wb = Inr p" using prepare_data_returns by blast
  have "case prepare_data ?wb of Inl e \<Rightarrow> False
        | Inr p \<Rightarrow> map QUANTITY (df p) = [5 / 2] \<and> map SQFT (df p) = [80]
            \<and> (11, DataRow ?c)
                \<in> set (snd (write_report (\<lambda>q. []) None \<lparr>dt_year = 2026, dt_month = 11\<rparr> p [] [] [] []))"
    by code_simp
  then have q: "map QUANTITY (df p) = [5 / 2]" and s: "map SQFT (df p) = [80]"
    and mem: "(11, DataRow ?c)
                \<in> set (snd (write_report (\<lambda>q. []) None \<lparr>dt_year = 2026, dt_month = 11\<rparr> p [] [] [] []))"
    using p by simp_all
  from quantity_cell_truncated[OF p mem] obtain row where
    row: "row \<in> set (df p)" "cell_E ?c = py_int (QUANTITY row)" by blast
  from q s row(1) have "QUANTITY row = 5 / 2" "SQFT row = 80"
    by (cases "df p"; auto)+
  then show ?thesis using p row mem by auto
qed

subsection \<open>The area formula against the area function\<close>

lemma strip_digits:
  assumes "list_all is_digit ds"
  shows "strip ds = ds"
proof (cases ds)
  case Nil
  then show ?thesis by (simp add: strip_def)
next
  case (Cons d rest)
  have ns: "\<not> is_space c" if "is_digit c" for c
    using that by (auto simp: is_space_def is_digit_def)
  have ne: "ds \<noteq> []" using Cons by simp
  then have "last ds \<in> set ds" by simp
  then have "is_digit (last ds)" using assms by (simp add: list_all_iff)
  moreover have "hd (rev ds) = last ds" using ne by (simp add: hd_rev)
  ultimately have "\<not> is_space (hd (rev ds))" using ns by simp
  then have 1: "dropWhile is_space (rev ds) = rev ds" using ne by (cases "rev ds") auto
  have "\<not> is_space d" using assms Cons ns by simp
  then have 2: "dropWhile is_space ds = ds" using Cons by simp
  show ?thesis by (simp add: strip_def 1 2)
qed

lemma py_float_digits:
  assumes "list_all is_digit ds" "ds \<noteq> []"
  shows "py_float ds = Some (of_nat (nat_of_digits ds))"
proof -
  obtain d rest where ds: "ds = d # rest" using assms(2) by (cases ds) auto
  have d: "is_digit d" using assms(1) ds by simp
  then have nd: "d \<noteq> CHR ''-''" "d \<noteq> CHR ''+''" by (auto simp: is_digit_def)
  have tw: "takeWhile is_digit ds = ds" "dropWhile is_digit ds = []"
    using assms(1) by (simp_all add: list_all_iff)
  have u: "unsigned_decimal ds = Some (of_nat (nat_of_digits ds))"
    using assms(2) by (simp add: unsigned_decimal_def tw)
  have "py_float ds = unsigned_decimal ds"
    unfolding py_float_def strip_digits[OF assms(1)] using nd by (simp add: ds)
  then show ?thesis using u by simp
qed

lemma digit_val_le: "is_digit d \<Longrightarrow> digit_val d \<le> 9"
  unfolding is_digit_def digit_val_def less_eq_char_def by simp arith

lemma str_nat_small:
  "str_nat (Suc 0) = ''1''" "str_nat 2 = ''2''" "str_nat 4 = ''4''" "str_nat 144 = ''144''"
  by (simp_all add: str_nat.simps digit_char_def)

lemma sqft_formula_text:
  "get_sqft_formula row n =
     (if lower (PRODUCT row) = ''laminate'' \<or> lower (PRODUCT row) = ''liner'' then ''0''
      else ''='' @ xl_text (sqft_expr n))"
  by (simp add: get_sqft_formula_def sqft_expr_def Let_def str_nat_small)

lemma sqft_value_short:
  assumes "is_digit d1" "is_xX x" "is_digit d2" "cell_B c = [d1, x, d2]"
  shows "xl_eval (row_sheet c n) [] (sqft_expr n)
           = VNum (of_nat (digit_val d1) * of_nat (digit_val d2) * of_int (cell_E c))"
proof -
  have f1: "py_float [d1] = Some (of_nat (digit_val d1))"
    using py_float_digits[of "[d1]"] assms(1) by (simp add: nat_of_digits_def)
  have f2: "py_float [d2] = Some (of_nat (digit_val d2))"
    using py_float_digits[of "[d2]"] assms(3) by (simp add: nat_of_digits_def)
  show ?thesis
    by (simp add: sqft_expr_def row_sheet_def Let_def xl_arith_def xl_number_def assms(4) f1 f2)
qed

lemma sqft_value_long:
  assumes "is_digit a" "is_digit b" "is_xX x" "is_digit e" "is_digit d" "cell_B c = [a, b, x, e, d]"
  shows "xl_eval (row_sheet c n) [] (sqft_expr n)
           = VNum (of_nat (nat_of_digits [a, b]) * of_nat (nat_of_digits [e, d]) / 144 * of_int (cell_E c))"
proof -
  have f1: "py_float [a, b] = Some (of_nat (nat_of_digits [a, b]))"
    using py_float_digits[of "[a, b]"] assms(1,2) by simp
  have f2: "py_float [e, d] = Some (of_nat (nat_of_digits [e, d]))"
    using py_float_digits[of "[e, d]"] assms(4,5) by simp
  show ?thesis
    by (simp add: sqft_expr_def row_sheet_def Let_def xl_arith_def xl_number_def assms(6) f1 f2)
qed

lemma sqft_formula_agrees:
  assumes "digit_x_digit (cell_B c) \<or> two_x_two_inches (cell_B c)"
  shows "xl_eval (row_sheet c n) [] (sqft_expr n)
           = VNum (calculate_sqft (Str (cell_B c)) (of_int (cell_E c)))"
  using assms
proof
  assume "digit_x_digit (cell_B c)"
  then obtain d1 x d2 where s: "cell_B c = [d1, x, d2]" and d: "is_digit d1" "is_xX x" "is_digit d2"
    by (auto simp: digit_x_digit_def split: list.splits)
  have f1: "py_float [d1] = Some (of_nat (digit_val d1))"
    using py_float_digits[of "[d1]"] d(1) by (simp add: nat_of_digits_def)
  have f2: "py_float [d2] = Some (of_nat (digit_val d2))"
    using py_float_digits[of "[d2]"] d(3) by (simp add: nat_of_digits_def)
  have "calculate_sqft (Str ([d1] @ x # [d2])) (of_int (cell_E c))
          = of_nat (digit_val d1) * of_nat (digit_val d2) * of_int (cell_E c)"
    using calculate_sqft_parts[OF d(2) f1 f2] digit_val_le[OF d(1)] digit_val_le[OF d(3)]
    by simp
  then show ?thesis using sqft_value_short[OF d s] s by simp
next
  assume "two_x_two_inches (cell_B c)"
  then obtain a b x e d where s: "cell_B c = [a, b, x, e, d]"
    and dg: "is_digit a" "is_digit b" "is_xX x" "is_digit e" "is_digit d"
    and big: "15 < nat_of_digits [a, b] \<or> 15 < nat_of_digits [e, d]"
    by (auto simp: two_x_two_inches_def split: list.splits)
  have f1: "py_float [a, b] = Some (of_nat (nat_of_digits [a, b]))"
    using py_float_digits[of "[a, b]"] dg(1,2) by simp
  have f2: "py_float [e, d] = Some (of_nat (nat_of_digits [e, d]))"
    using py_float_digits[of "[e, d]"] dg(4,5) by simp
  have "\<not> ((of_nat (nat_of_digits [a, b]) :: rat) \<le> 15 \<and> (of_nat (nat_of_digits [e, d]) :: rat) \<le> 15)"
    using big by (metis of_nat_le_iff of_nat_numeral not_less)
  then have "calculate_sqft (Str ([a, b] @ x # [e, d])) (of_int (cell_E c))
          = of_nat (nat_of_digits [a, b]) * of_nat (nat_of_digits [e, d]) / 144 * of_int (cell_E c)"
    using calculate_sqft_parts[OF dg(3) f1 f2, of "of_int (cell_E c)"] by auto
  then show ?thesis using sqft_value_long[OF dg s] s by simp
qed

lemma py_int_whole: "q \<in> \<int> \<Longrightarrow> of_int (py_int q) = q"
  by (auto simp: py_int_def elim!: Ints_cases)

text \<open>
  Claim C1, as amended. Every data row of the report is written from a row of the
  frame. For a row whose product is \<open>laminate\<close> or \<open>liner\<close> (in any letter case) the area
  cell is the constant text \<open>0\<close>, whatever the size and quantity. For every other row
  the area cell is the \<open>LET\<close> formula over the row's own size and quantity cells; when
  the row's quantity is a whole number and its size is one digit, \<open>x\<close>, one digit, or
  two digits, \<open>x\<close>, two digits with one side above 15, the formula evaluated on those
  cells gives \<open>calculate_sqft\<close> of the row's size and quantity.
\<close>

theorem sqft_formula_refines_area:
  assumes "(n, DataRow c)
             \<in> set (snd (write_report fmt db now p dealer_name city order_date freight_condition))"
  shows "\<exists>row \<in> set (df p).
           c = write_data_row fmt p row n
         \<and> (if lower (PRODUCT row) = ''laminate'' \<or> lower (PRODUCT row) = ''liner''
            then cell_F c = ''0''
            else cell_F c = ''='' @ xl_text (sqft_expr n)
               \<and> ((digit_x_digit (SIZE row) \<or> two_x_two_inches (SIZE row))
                    \<and> QUANTITY row \<in> \<int> \<longrightarrow>
                    xl_eval (row_sheet c n) [] (sqft_expr n)
                      = VNum (calculate_sqft (Str (SIZE row)) (QUANTITY row))))"
proof -
  from report_data_rows[OF assms] obtain row where
    row: "row \<in> set (df p)" "c = write_data_row fmt p row n" by blast
  have cells: "cell_F c = get_sqft_formula row n" "cell_B c = SIZE row"
    "cell_E c = py_int (QUANTITY row)"
    using row(2) by (simp_all add: write_data_row_def)
  have "xl_eval (row_sheet c n) [] (sqft_expr n)
          = VNum (calculate_sqft (Str (SIZE row)) (QUANTITY row))"
    if "digit_x_digit (SIZE row) \<or> two_x_two_inches (SIZE row)" "QUANTITY row \<in> \<int>"
    using sqft_formula_agrees[of c n] that cells(2,3) py_int_whole[OF that(2)] by simp
  then have "if lower (PRODUCT row) = ''laminate'' \<or> lower (PRODUCT row) = ''liner''
            then cell_F c = ''0''
            else cell_F c = ''='' @ xl_text (sqft_expr n)
               \<and> ((digit_x_digit (SIZE row) \<or> two_x_two_inches (SIZE row))
                    \<and> QUANTITY row \<in> \<int> \<longrightarrow>
                    xl_eval (row_sheet c n) [] (sqft_expr n)
                      = VNum (calculate_sqft (Str (SIZE row)) (QUANTITY row)))"
    using cells(1) by (simp add: sqft_formula_text)
  then show ?thesis using row by blast
qed

theorem sqft_formula_refines_area_witness:
  "xl_eval
     (row_sheet \<lparr>cell_A = ''Door'', cell_B = ''8x4'', cell_C = ''SF'', cell_D = ''B1'',
                 cell_E = 2, cell_F = ''='' @ xl_text (sqft_expr 11), cell_G = ''=F11*1.5''\<rparr> 11)
     [] (sqft_expr 11) = VNum 64
   \<and> calculate_sqft (Str ''8x4'') 2 = 64"
proof -
  let ?row = "\<lparr>PRODUCT = ''Door'', SIZE = ''8x4'', CATEGORY = ''SF'', BRAND = ''B1'',
              QUANTITY = 2, CATEGORY_NORM = ''SF'', SQFT = 64\<rparr>"
  let ?p = "\<lparr>df = [?row], cat_order = [''SF''],
            weight_map = Map.empty, hdmr_map = Map.empty, mdf_map = Map.empty,
            ply_map = Map.empty, pvc_map = Map.empty, wpc_map = Map.empty\<rparr>"
  let ?c = "\<lparr>cell_A = ''Door'', cell_B = ''8x4'', cell_C = ''SF'', cell_D = ''B1'',
            cell_E = 2, cell_F = ''='' @ xl_text (sqft_expr 11), cell_G = ''=F11*1.5''\<rparr>"
  let ?now = "\<lparr>dt_year = 2026, dt_month = 11\<rparr>"
  have mem: "(11, DataRow ?c) \<in> set (snd (write_report (\<lambda>q. []) None ?now ?p [] [] [] []))"
    by code_simp
  have door: "\<not> (lower ''Door'' = ''laminate'' \<or> lower ''Door'' = ''liner'')" by code_simp
  have shape: "digit_x_digit ''8x4''" by code_simp
  have area: "calculate_sqft (Str ''8x4'') 2 = 64" by code_simp
  from sqft_formula_refines_area[OF mem] obtain row where
    r: "row \<in> set (df ?p)" and
    f: "if lower (PRODUCT row) = ''laminate'' \<or> lower (PRODUCT row) = ''liner''
        then cell_F ?c = ''0''
        else cell_F ?c = ''='' @ xl_text (sqft_expr 11)
           \<and> ((digit_x_digit (SIZE row) \<or> two_x_two_inches (SIZE row))
                \<and> QUANTITY row \<in> \<int> \<longrightarrow>
                xl_eval (row_sheet ?c 11) [] (sqft_expr 11)
                  = VNum (calculate_sqft (Str (SIZE row)) (QUANTITY row)))"
    by blast
  have "row = ?row" using r by simp
  then have "xl_eval (row_sheet ?c 11) [] (sqft_expr 11)
               = VNum (calculate_sqft (Str ''8x4'') 2)"
    using f door shape by simp
  then show ?thesis using area by simp
qed

text \<open>
  The claim as first stated fails, and each condition of the amended claim is needed.
  A laminate of size 72x48 and quantity 10 gets the text \<open>0\<close> in its area cell while
  its area is 240. For a ply of size 10x12 and quantity 1 the formula evaluates to 5/6
  while the area function gives 120. For a door of size 8x12 the formula takes \<open>8x\<close>
  for a number and gives the error value, while the area function gives 96. For a
  door of size 8x4 and quantity 5/2 the quantity cell holds 2 and the formula gives
  64, while the area function on the row's quantity gives 80.
\<close>

theorem sqft_formula_counterexample:
  "get_sqft_formula \<lparr>PRODUCT = ''Laminate'', SIZE = ''72x48'', CATEGORY = ''SF'', BRAND = ''Test'',
                     QUANTITY = 10, CATEGORY_NORM = ''Default'', SQFT = 240\<rparr> 11 = ''0''
   \<and> calculate_sqft (Str ''72x48'') 10 = 240
   \<and> get_sqft_formula \<lparr>PRODUCT = ''Ply'', SIZE = ''10x12'', CATEGORY = ''18mm'', BRAND = ''B1'',
                       QUANTITY = 1, CATEGORY_NORM = ''18mm'', SQFT = 120\<rparr> 11
       = ''='' @ xl_text (sqft_expr 11)
   \<and> xl_eval (row_sheet \<lparr>cell_A = ''Ply'', cell_B = ''10x12'', cell_C = ''18mm'', cell_D = ''B1'',
                         cell_E = 1, cell_F = ''='' @ xl_text (sqft_expr 11), cell_G = ''0''\<rparr> 11)
       [] (sqft_expr 11) = VNum (5 / 6)
   \<and> calculate_sqft (Str ''10x12'') 1 = 120
   \<and> xl_eval (row_sheet \<lparr>cell_A = ''Door'', cell_B = ''8x12'', cell_C = ''SF'', cell_D = ''B1'',
                         cell_E = 1, cell_F = ''='' @ xl_text (sqft_expr 11),
                         cell_G = ''=F11*1.5''\<rparr> 11)
       [] (sqft_expr 11) = VErr
   \<and> calculate_sqft (Str ''8x12'') 1 = 96
   \<and> xl_eval (row_sheet
        (write_data_row (\<lambda>q. [])
           \<lparr>df = [], cat_order = [], weight_map = Map.empty, hdmr_map = Map.empty,
            mdf_map = Map.empty, ply_map = Map.empty, pvc_map = Map.empty,
            wpc_map = Map.empty\<rparr>
           \<lparr>PRODUCT = ''Door'', SIZE = ''8x4'', CATEGORY = ''SF'', BRAND = ''B1'',
            QUANTITY = 5 / 2, CATEGORY_NORM = ''SF'', SQFT = 80\<rparr> 11) 11)
       [] (sqft_expr 11) = VNum 64
   \<and> calculate_sqft (Str ''8x4'') (5 / 2) = 80"
  by code_simp

end
